theory Spec2Isabelle
  imports Main "HOL-Library.Product_Lexorder"
begin

section \<open>Instants\<close>

text \<open>
  A Python \<^verbatim>\<open>datetime\<close> made timezone-aware in UTC is modelled by the number of
  microseconds since \<^verbatim>\<open>datetime.min\<close> (0001-01-01T00:00:00.000000 UTC): comparison
  of aware datetimes compares exactly this number. \<^verbatim>\<open>datetime.max\<close> is
  9999-12-31T23:59:59.999999. Arithmetic that leaves the range raises
  \<^verbatim>\<open>OverflowError\<close> in Python, which the model returns as a value.
\<close>

type_synonym datetime = nat

datatype error = ValueError | OverflowError | SystemExit int

definition DT_MIN :: datetime where
  "DT_MIN = 0"

definition DT_MAX :: datetime where
  "DT_MAX = 315537897599999999"

text \<open>\<^verbatim>\<open>dt - timedelta(microseconds=us)\<close>\<close>

definition minus_microseconds :: "datetime \<Rightarrow> nat \<Rightarrow> error + datetime" where
  "minus_microseconds dt us = (if dt < DT_MIN + us then Inl OverflowError else Inr (dt - us))"

text \<open>
  \<^verbatim>\<open>
  def overlaps(a_start, a_end, b_start, b_end):
      return (a_start <= b_end) and (b_start <= a_end)
  \<close>
\<close>

definition overlaps :: "datetime \<Rightarrow> datetime \<Rightarrow> datetime \<Rightarrow> datetime \<Rightarrow> bool" where
  "overlaps a_start a_end b_start b_end \<longleftrightarrow> a_start \<le> b_end \<and> b_start \<le> a_end"

section \<open>Data\<close>

text \<open>
  The dictionaries the program builds have fixed keys, so they are records. A value that
  may be \<^verbatim>\<open>None\<close> is an option.
\<close>

text \<open>An entry of the list \<^verbatim>\<open>get_assignee_changes\<close> returns.\<close>

record change =
  created_dt :: datetime
  from_id :: "string option"
  from_name :: "string option"
  to_id :: "string option"
  to_name :: "string option"

text \<open>An entry of \<^verbatim>\<open>intervals\<close> (keys start, end, id, name).\<close>

record interval =
  iv_start :: datetime
  iv_end :: datetime
  iv_id :: "string option"
  iv_name :: "string option"

text \<open>An entry of \<^verbatim>\<open>holders\<close> (keys id, name, overlap_start, overlap_end).\<close>

record holder =
  h_id :: "string option"
  h_name :: "string option"
  overlap_start :: datetime
  overlap_end :: datetime

text \<open>The \<^verbatim>\<open>assignee\<close> object of an issue and the fields of an issue the program reads.\<close>

record user =
  accountId :: "string option"
  displayName :: "string option"

record issue_fields =
  assignee :: "user option"
  summary :: "string option"
  project_key :: "string option"
  issuetype_name :: "string option"
  status_name :: "string option"
  created :: "string option"
  updated :: "string option"
  resolutiondate :: "string option"

text \<open>The dictionary \<^verbatim>\<open>compute_assignee_window_info\<close> returns.\<close>

record window_info =
  assignees_during_window_display :: string
  assignees_during_window_accountIds :: string
  first_assignee_in_window :: "string option"
  last_assignee_in_window :: "string option"
  holders :: "holder list"

section \<open>Strings\<close>

text \<open>\<^verbatim>\<open>", ".join(xs)\<close>\<close>

fun join_comma :: "string list \<Rightarrow> string" where
  "join_comma [] = []"
| "join_comma [x] = x"
| "join_comma (x # y # ys) = x @ '', '' @ join_comma (y # ys)"

text \<open>Truthiness of an optional string: \<^verbatim>\<open>None\<close> and the empty string are false.\<close>

fun truthy :: "string option \<Rightarrow> bool" where
  "truthy None = False"
| "truthy (Some s) = (s \<noteq> [])"

section \<open>Timeline reconstruction and window intersection\<close>

text \<open>
  The loop \<^verbatim>\<open>for i in range(len(assignee_changes) - 1)\<close> of
  \<^verbatim>\<open>compute_assignee_window_info\<close>: one interval for each pair of neighbours.
\<close>

fun between_changes :: "change list \<Rightarrow> error + interval list" where
  "between_changes (cur # nxt # rest) =
     (case minus_microseconds (created_dt nxt) 1 of
        Inl e \<Rightarrow> Inl e
      | Inr e' \<Rightarrow>
          (case between_changes (nxt # rest) of
             Inl e \<Rightarrow> Inl e
           | Inr ivs \<Rightarrow>
               Inr (\<lparr>iv_start = created_dt cur, iv_end = e',
                     iv_id = to_id cur, iv_name = to_name cur\<rparr> # ivs)))"
| "between_changes _ = Inr []"

text \<open>Lines 172 to 208: the list \<^verbatim>\<open>intervals\<close>.\<close>

definition build_intervals :: "issue_fields \<Rightarrow> change list \<Rightarrow> error + interval list" where
  "build_intervals issue_fields assignee_changes =
     (if assignee_changes \<noteq> [] then
        (let first = hd assignee_changes in
         case minus_microseconds (created_dt first) 1 of
           Inl e \<Rightarrow> Inl e
         | Inr first_end \<Rightarrow>
             (case between_changes assignee_changes of
                Inl e \<Rightarrow> Inl e
              | Inr middle \<Rightarrow>
                  (let final = last assignee_changes in
                   Inr ([\<lparr>iv_start = DT_MIN, iv_end = first_end,
                           iv_id = from_id first, iv_name = from_name first\<rparr>]
                        @ middle
                        @ [\<lparr>iv_start = created_dt final, iv_end = DT_MAX,
                             iv_id = to_id final, iv_name = to_name final\<rparr>]))))
      else
        (let cur = (case assignee issue_fields of
                      None \<Rightarrow> \<lparr>accountId = None, displayName = None\<rparr>
                    | Some u \<Rightarrow> u)
         in Inr [\<lparr>iv_start = DT_MIN, iv_end = DT_MAX,
                  iv_id = accountId cur, iv_name = displayName cur\<rparr>]))"

text \<open>Lines 210 to 222: the list \<^verbatim>\<open>holders\<close>.\<close>

fun find_overlaps :: "interval list \<Rightarrow> datetime \<Rightarrow> datetime \<Rightarrow> holder list" where
  "find_overlaps [] window_start window_end = []"
| "find_overlaps (iv # ivs) window_start window_end =
     (if overlaps (iv_start iv) (iv_end iv) window_start window_end then
        \<lparr>h_id = iv_id iv, h_name = iv_name iv,
         overlap_start = max (iv_start iv) window_start,
         overlap_end = min (iv_end iv) window_end\<rparr>
        # find_overlaps ivs window_start window_end
      else find_overlaps ivs window_start window_end)"

text \<open>Lines 224 to 232: sorted by overlap, then unique by (id, name), first kept.\<close>

fun unique_holders ::
  "(string option \<times> string option) set \<Rightarrow> holder list \<Rightarrow> holder list" where
  "unique_holders seen [] = []"
| "unique_holders seen (h # hs) =
     (let key = (h_id h, h_name h) in
      if key \<notin> seen then h # unique_holders (insert key seen) hs
      else unique_holders seen hs)"

definition holders_sorted :: "holder list \<Rightarrow> holder list" where
  "holders_sorted hs = sort_key (\<lambda>h. (overlap_start h, overlap_end h)) hs"

definition compute_assignee_window_info ::
  "issue_fields \<Rightarrow> change list \<Rightarrow> datetime \<Rightarrow> datetime \<Rightarrow> error + window_info" where
  "compute_assignee_window_info issue_fields assignee_changes window_start window_end =
     (case build_intervals issue_fields assignee_changes of
        Inl e \<Rightarrow> Inl e
      | Inr intervals \<Rightarrow>
          (let hs = find_overlaps intervals window_start window_end;
               unique = unique_holders {} (holders_sorted hs)
           in Inr \<lparr>assignees_during_window_display =
                      join_comma (map (\<lambda>h. the (h_name h)) (filter (\<lambda>h. truthy (h_name h)) unique)),
                    assignees_during_window_accountIds =
                      join_comma (map (\<lambda>h. the (h_id h)) (filter (\<lambda>h. truthy (h_id h)) unique)),
                    first_assignee_in_window =
                      (if unique \<noteq> [] then h_name (hd unique) else Some []),
                    last_assignee_in_window =
                      (if unique \<noteq> [] then h_name (last unique) else Some []),
                    holders = unique\<rparr>))"

section \<open>Strings of the standard library\<close>

text \<open>
  Strings are ASCII: \<^verbatim>\<open>str.lower\<close> maps A to Z onto a to z and leaves every other
  character, and \<^verbatim>\<open>str.strip\<close> removes the ASCII characters \<^verbatim>\<open>str.isspace\<close>
  accepts (tab, line feed, vertical tab, form feed, carriage return, the separators
  0x1C to 0x1F and the space).
\<close>

definition lower_char :: "char \<Rightarrow> char" where
  "lower_char c =
     (case map_of (zip ''ABCDEFGHIJKLMNOPQRSTUVWXYZ'' ''abcdefghijklmnopqrstuvwxyz'') c of
        Some d \<Rightarrow> d
      | None \<Rightarrow> c)"

definition lower :: "string \<Rightarrow> string" where
  "lower s = map lower_char s"

definition is_space :: "char \<Rightarrow> bool" where
  "is_space c \<longleftrightarrow>
     (let n = (of_char c :: nat) in (9 \<le> n \<and> n \<le> 13) \<or> (28 \<le> n \<and> n \<le> 32))"

definition strip :: "string \<Rightarrow> string" where
  "strip s = rev (dropWhile is_space (rev (dropWhile is_space s)))"

text \<open>\<^verbatim>\<open>s.split(",")\<close>\<close>

fun split_comma :: "string \<Rightarrow> string list" where
  "split_comma [] = [[]]"
| "split_comma (c # cs) =
     (if c = CHR '','' then [] # split_comma cs
      else (case split_comma cs of
              x # xs \<Rightarrow> (c # x) # xs
            | [] \<Rightarrow> [[c]]))"

text \<open>
  \<^verbatim>\<open>
  def csv_list(s):
      return [i.strip() for i in s.split(",") if i.strip()]
  \<close>
\<close>

definition csv_list :: "string \<Rightarrow> string list" where
  "csv_list s = map strip (filter (\<lambda>i. strip i \<noteq> []) (split_comma s))"

text \<open>\<^verbatim>\<open>x or d\<close> for an optional string \<^verbatim>\<open>x\<close>.\<close>

definition or_str :: "string option \<Rightarrow> string \<Rightarrow> string" where
  "or_str x d = (case x of None \<Rightarrow> d | Some s \<Rightarrow> if s = [] then d else s)"

section \<open>Dates and timestamps\<close>

text \<open>
  \<^verbatim>\<open>datetime(y, m, d, hh, mm, ss, us)\<close> in the proleptic Gregorian calendar, as
  microseconds since \<^verbatim>\<open>datetime.min\<close>; a field out of range raises
  \<^verbatim>\<open>ValueError\<close>.
\<close>

definition is_leap :: "nat \<Rightarrow> bool" where
  "is_leap y \<longleftrightarrow> y mod 4 = 0 \<and> (y mod 100 \<noteq> 0 \<or> y mod 400 = 0)"

definition days_in_month :: "nat \<Rightarrow> nat \<Rightarrow> nat" where
  "days_in_month y m =
     (if m = 2 then (if is_leap y then 29 else 28)
      else if m \<in> {4, 6, 9, 11} then 30 else 31)"

definition days_before_month :: "nat \<Rightarrow> nat \<Rightarrow> nat" where
  "days_before_month y m = sum_list (map (days_in_month y) [1..<m])"

definition days_before_year :: "nat \<Rightarrow> nat" where
  "days_before_year y = (y - 1) * 365 + (y - 1) div 4 - (y - 1) div 100 + (y - 1) div 400"

definition mk_datetime ::
  "nat \<Rightarrow> nat \<Rightarrow> nat \<Rightarrow> nat \<Rightarrow> nat \<Rightarrow> nat \<Rightarrow> nat \<Rightarrow> error + datetime" where
  "mk_datetime y m d hh mm ss us =
     (if 1 \<le> y \<and> y \<le> 9999 \<and> 1 \<le> m \<and> m \<le> 12 \<and> 1 \<le> d \<and> d \<le> days_in_month y m
         \<and> hh \<le> 23 \<and> mm \<le> 59 \<and> ss \<le> 59 \<and> us \<le> 999999
      then Inr (((((days_before_year y + days_before_month y m + (d - 1)) * 24 + hh) * 60 + mm)
                  * 60 + ss) * 1000000 + us)
      else Inl ValueError)"

text \<open>\<^verbatim>\<open>dt.replace(hour=hh, minute=mm, second=ss, microsecond=us)\<close>\<close>

definition replace_time :: "datetime \<Rightarrow> nat \<Rightarrow> nat \<Rightarrow> nat \<Rightarrow> nat \<Rightarrow> datetime" where
  "replace_time dt hh mm ss us =
     dt div 86400000000 * 86400000000 + ((hh * 60 + mm) * 60 + ss) * 1000000 + us"

text \<open>
  \<^verbatim>\<open>datetime.strptime\<close> for the two formats of the program. A directive matches the
  text up to the separator that follows it in the format; the model reads each field
  as CPython's regular expressions for the directives do
  (\<^verbatim>\<open>%Y\<close> four digits; \<^verbatim>\<open>%m %d %H %M %S\<close> one or two digits in range, \<^verbatim>\<open>%d\<close>
  also a space and a digit; \<^verbatim>\<open>%f\<close> one to six digits; \<^verbatim>\<open>%z\<close> Z or a signed
  offset HHMM, HH:MM, HHMMSS[.f] or HH:MM:SS[.f]), and any other text raises
  \<^verbatim>\<open>ValueError\<close>.
\<close>

definition is_digit :: "char \<Rightarrow> bool" where
  "is_digit c \<longleftrightarrow> c \<in> set ''0123456789''"

definition digit_val :: "char \<Rightarrow> nat" where
  "digit_val c = of_char c - 48"

definition int_of_digits :: "string \<Rightarrow> nat" where
  "int_of_digits s = foldl (\<lambda>n c. 10 * n + digit_val c) 0 s"

definition number_field :: "nat \<Rightarrow> nat \<Rightarrow> nat \<Rightarrow> nat \<Rightarrow> string \<Rightarrow> nat option" where
  "number_field min_len max_len lo hi s =
     (if min_len \<le> length s \<and> length s \<le> max_len \<and> list_all is_digit s
         \<and> lo \<le> int_of_digits s \<and> int_of_digits s \<le> hi
      then Some (int_of_digits s) else None)"

definition day_field :: "string \<Rightarrow> nat option" where
  "day_field s =
     (if length s = 2 \<and> hd s = CHR '' '' then number_field 1 1 1 9 (tl s)
      else number_field 1 2 1 31 s)"

text \<open>\<^verbatim>\<open>%f\<close>: one to six digits, read as the leading digits of six.\<close>

definition fraction_field :: "string \<Rightarrow> nat option" where
  "fraction_field s =
     (if 1 \<le> length s \<and> length s \<le> 6 \<and> list_all is_digit s
      then Some (int_of_digits s * 10 ^ (6 - length s)) else None)"

definition split_where :: "(char \<Rightarrow> bool) \<Rightarrow> string \<Rightarrow> (string \<times> string) option" where
  "split_where P s =
     (if list_ex P s then Some (takeWhile (\<lambda>x. \<not> P x) s, tl (dropWhile (\<lambda>x. \<not> P x) s))
      else None)"

definition strptime_ymd :: "string \<Rightarrow> error + datetime" where
  "strptime_ymd s =
     (case split_where (\<lambda>c. c = CHR ''-'') s of
        None \<Rightarrow> Inl ValueError
      | Some (ys, r1) \<Rightarrow>
     (case split_where (\<lambda>c. c = CHR ''-'') r1 of
        None \<Rightarrow> Inl ValueError
      | Some (ms, ds) \<Rightarrow>
     (case (number_field 4 4 0 9999 ys, number_field 1 2 1 12 ms, day_field ds) of
        (Some y, Some m, Some d) \<Rightarrow> mk_datetime y m d 0 0 0 0
      | _ \<Rightarrow> Inl ValueError)))"

text \<open>The seconds of a \<^verbatim>\<open>%z\<close> offset, after the minutes, in microseconds.\<close>

definition offset_seconds :: "bool \<Rightarrow> string \<Rightarrow> nat option" where
  "offset_seconds colon tail =
     (if tail = [] then Some 0
      else if colon \<and> hd tail \<noteq> CHR '':'' then None
      else
        (let t = (if colon then tl tail else tail);
             ss = take 2 t; fr = drop 2 t in
         case number_field 2 2 0 59 ss of
           None \<Rightarrow> None
         | Some sec \<Rightarrow>
             (if fr = [] then Some (sec * 1000000)
              else if hd fr \<noteq> CHR ''.'' then None
              else (case fraction_field (tl fr) of
                      None \<Rightarrow> None
                    | Some us \<Rightarrow> Some (sec * 1000000 + us)))))"

text \<open>\<^verbatim>\<open>%z\<close>: the offset from UTC in microseconds, within a day on either side.\<close>

definition offset_field :: "string \<Rightarrow> int option" where
  "offset_field z =
     (if z = ''Z'' then Some 0
      else if z = [] \<or> hd z \<notin> {CHR ''+'', CHR ''-''} then None
      else
        (let body = tl z;
             colon = (length body > 2 \<and> body ! 2 = CHR '':'');
             mins = (if colon then drop 3 body else drop 2 body) in
         case (number_field 2 2 0 99 (take 2 body), number_field 2 2 0 59 (take 2 mins),
               offset_seconds colon (drop 2 mins)) of
           (Some hh, Some mm, Some sec) \<Rightarrow>
             (let off = (hh * 60 + mm) * 60 * 1000000 + sec in
              if off < 86400000000
              then Some (if hd z = CHR ''-'' then - int off else int off)
              else None)
         | _ \<Rightarrow> None))"

text \<open>
  \<^verbatim>\<open>datetime.strptime(s, "%Y-%m-%dT%H:%M:%S.%f%z")\<close>: the local time and the offset.
  The letter T of the format matches in either case.
\<close>

definition strptime_api :: "string \<Rightarrow> error + (datetime \<times> int)" where
  "strptime_api s =
     (case split_where (\<lambda>c. c = CHR ''-'') s of None \<Rightarrow> Inl ValueError | Some (ys, r1) \<Rightarrow>
     (case split_where (\<lambda>c. c = CHR ''-'') r1 of None \<Rightarrow> Inl ValueError | Some (ms, r2) \<Rightarrow>
     (case split_where (\<lambda>c. c = CHR ''T'' \<or> c = CHR ''t'') r2 of None \<Rightarrow> Inl ValueError | Some (ds, r3) \<Rightarrow>
     (case split_where (\<lambda>c. c = CHR '':'') r3 of None \<Rightarrow> Inl ValueError | Some (hs, r4) \<Rightarrow>
     (case split_where (\<lambda>c. c = CHR '':'') r4 of None \<Rightarrow> Inl ValueError | Some (mins, r5) \<Rightarrow>
     (case split_where (\<lambda>c. c = CHR ''.'') r5 of None \<Rightarrow> Inl ValueError | Some (secs, r6) \<Rightarrow>
     (case (number_field 4 4 0 9999 ys, number_field 1 2 1 12 ms, day_field ds) of
        (Some y, Some m, Some d) \<Rightarrow>
          (case (number_field 1 2 0 23 hs, number_field 1 2 0 59 mins, number_field 1 2 0 61 secs) of
             (Some hh, Some mm, Some ss) \<Rightarrow>
               (case (fraction_field (takeWhile is_digit r6), offset_field (dropWhile is_digit r6)) of
                  (Some us, Some off) \<Rightarrow>
                    (case mk_datetime y m d hh mm ss us of
                       Inl e \<Rightarrow> Inl e
                     | Inr local \<Rightarrow> Inr (local, off))
                | _ \<Rightarrow> Inl ValueError)
           | _ \<Rightarrow> Inl ValueError)
      | _ \<Rightarrow> Inl ValueError)))))))"

text \<open>\<^verbatim>\<open>.astimezone(timezone.utc)\<close>: the instant, which must be a datetime.\<close>

definition astimezone_utc :: "datetime \<Rightarrow> int \<Rightarrow> error + datetime" where
  "astimezone_utc local off =
     (let utc = int local - off in
      if utc < int DT_MIN \<or> int DT_MAX < utc then Inl OverflowError else Inr (nat utc))"

text \<open>
  \<^verbatim>\<open>
  def parse_api_dt(s):
      return datetime.strptime(s, "%Y-%m-%dT%H:%M:%S.%f%z").astimezone(timezone.utc)
  \<close>
\<close>

definition parse_api_dt :: "string \<Rightarrow> error + datetime" where
  "parse_api_dt s =
     (case strptime_api s of
        Inl e \<Rightarrow> Inl e
      | Inr (local, off) \<Rightarrow> astimezone_utc local off)"

text \<open>
  \<^verbatim>\<open>
  def parse_date_ymd_utc(s, end_of_day=False):
      dt = datetime.strptime(s, "%Y-%m-%d").replace(tzinfo=timezone.utc)
      if end_of_day:
          return dt.replace(hour=23, minute=59, second=59, microsecond=999000)
      return dt
  \<close>
\<close>

definition parse_date_ymd_utc :: "string \<Rightarrow> bool \<Rightarrow> error + datetime" where
  "parse_date_ymd_utc s end_of_day =
     (case strptime_ymd s of
        Inl e \<Rightarrow> Inl e
      | Inr dt \<Rightarrow> if end_of_day then Inr (replace_time dt 23 59 59 999000) else Inr dt)"

section \<open>The user filter\<close>

text \<open>The loop over \<^verbatim>\<open>holders\<close> of \<^verbatim>\<open>match_holders_to_user_filter\<close>: the list \<^verbatim>\<open>out\<close>.\<close>

fun match_out :: "holder list \<Rightarrow> string list \<Rightarrow> bool \<Rightarrow> string list" where
  "match_out [] users_norm use_accountid = []"
| "match_out (h # hs) users_norm use_accountid =
     (if use_accountid then
        (if truthy (h_id h) \<and> lower (the (h_id h)) \<in> set users_norm
         then or_str (h_name h) (the (h_id h)) # match_out hs users_norm use_accountid
         else match_out hs users_norm use_accountid)
      else
        (let nm = lower (or_str (h_name h) []) in
         if nm \<noteq> [] \<and> nm \<in> set users_norm
         then the (h_name h) # match_out hs users_norm use_accountid
         else match_out hs users_norm use_accountid))"

text \<open>The loop that keeps the first occurrence of each string of \<^verbatim>\<open>out\<close>.\<close>

fun out_unique :: "string set \<Rightarrow> string list \<Rightarrow> string list" where
  "out_unique seen [] = []"
| "out_unique seen (x # xs) =
     (if x \<notin> seen then x # out_unique (insert x seen) xs else out_unique seen xs)"

text \<open>\<^verbatim>\<open>users\<close> is \<^verbatim>\<open>None\<close> or a list.\<close>

definition match_holders_to_user_filter ::
  "holder list \<Rightarrow> string list option \<Rightarrow> bool \<Rightarrow> string" where
  "match_holders_to_user_filter hs users use_accountid =
     (case users of
        None \<Rightarrow> []
      | Some us \<Rightarrow>
          if us = [] then []
          else join_comma (out_unique {}
                 (match_out hs (map (\<lambda>u. lower (strip u)) us) use_accountid)))"

text \<open>
  \<^verbatim>\<open>str.lower\<close> and \<^verbatim>\<open>str.strip\<close> act on Unicode text. The same function with the
  two as parameters, \<open>lower_fn\<close> for \<^verbatim>\<open>.lower()\<close> and \<open>strip_fn\<close> for
  \<^verbatim>\<open>.strip()\<close>: the function above is the one with the ASCII \<open>lower\<close> and
  \<open>strip\<close> in their place.
\<close>

fun match_out_with ::
  "(string \<Rightarrow> string) \<Rightarrow> holder list \<Rightarrow> string list \<Rightarrow> bool \<Rightarrow> string list" where
  "match_out_with lower_fn [] users_norm use_accountid = []"
| "match_out_with lower_fn (h # hs) users_norm use_accountid =
     (if use_accountid then
        (if truthy (h_id h) \<and> lower_fn (the (h_id h)) \<in> set users_norm
         then or_str (h_name h) (the (h_id h)) # match_out_with lower_fn hs users_norm use_accountid
         else match_out_with lower_fn hs users_norm use_accountid)
      else
        (let nm = lower_fn (or_str (h_name h) []) in
         if nm \<noteq> [] \<and> nm \<in> set users_norm
         then the (h_name h) # match_out_with lower_fn hs users_norm use_accountid
         else match_out_with lower_fn hs users_norm use_accountid))"

definition match_holders_to_user_filter_with ::
  "(string \<Rightarrow> string) \<Rightarrow> (string \<Rightarrow> string) \<Rightarrow> holder list \<Rightarrow> string list option \<Rightarrow> bool
     \<Rightarrow> string" where
  "match_holders_to_user_filter_with lower_fn strip_fn hs users use_accountid =
     (case users of
        None \<Rightarrow> []
      | Some us \<Rightarrow>
          if us = [] then []
          else join_comma (out_unique {}
                 (match_out_with lower_fn hs (map (\<lambda>u. lower_fn (strip_fn u)) us) use_accountid)))"

section \<open>The tracker's answers\<close>

text \<open>
  The program reads the tracker through \<^verbatim>\<open>requests\<close>. A run sees it as the answers
  it gives: a response has a status code, a text and a decoded body. The query text and
  the field list are the same in every search request of a run, so the search answers
  depend on the page token only; the changelog answers depend on the issue key and on
  \<^verbatim>\<open>startAt\<close>.
\<close>

record history_item =
  item_field :: "string option"
  item_from :: "string option"
  item_fromString :: "string option"
  item_to :: "string option"
  item_toString :: "string option"

record history =
  hist_created :: "string option"
  hist_items :: "history_item list"

record changelog_data =
  cl_values :: "history list option"
  cl_histories :: "history list option"
  cl_total :: "int option"
  cl_isLast :: "bool option"

record 'a response =
  status_code :: int
  resp_text :: string
  resp_json :: 'a

record issue =
  issue_key :: string
  issue_fields_of :: issue_fields

record search_data =
  sd_issues :: "issue list"
  sd_isLast :: bool
  sd_nextPageToken :: "string option"

record world =
  getenv :: "string \<Rightarrow> string option"
  search_post :: "string option \<Rightarrow> search_data response"
  changelog_get :: "string \<Rightarrow> nat \<Rightarrow> changelog_data response"

text \<open>A line the program prints on \<^verbatim>\<open>stderr\<close>: status code, issue key, response text.\<close>

datatype log_line = ChangelogError int string string

section \<open>The assignee history of one issue\<close>

text \<open>The loop over \<^verbatim>\<open>h.get("items", [])\<close> of \<^verbatim>\<open>get_assignee_changes\<close>.\<close>

fun collect_items :: "datetime \<Rightarrow> history_item list \<Rightarrow> change list" where
  "collect_items dt [] = []"
| "collect_items dt (item # items) =
     (if item_field item = Some ''assignee'' then
        \<lparr>created_dt = dt, from_id = item_from item, from_name = item_fromString item,
         to_id = item_to item, to_name = item_toString item\<rparr> # collect_items dt items
      else collect_items dt items)"

text \<open>
  The loop over \<^verbatim>\<open>histories\<close>: a record with no timestamp is skipped, and the
  exception \<^verbatim>\<open>parse_api_dt\<close> raises leaves the loop.
\<close>

fun collect_histories :: "history list \<Rightarrow> error + change list" where
  "collect_histories [] = Inr []"
| "collect_histories (h # hs) =
     (if \<not> truthy (hist_created h) then collect_histories hs
      else
        (case parse_api_dt (the (hist_created h)) of
           Inl e \<Rightarrow> Inl e
         | Inr dt \<Rightarrow>
             (case collect_histories hs of
                Inl e \<Rightarrow> Inl e
              | Inr rest \<Rightarrow> Inr (collect_items dt (hist_items h) @ rest))))"

text \<open>\<^verbatim>\<open>data.get("values") or data.get("histories") or []\<close>\<close>

definition histories_of :: "changelog_data \<Rightarrow> history list" where
  "histories_of data =
     (case cl_values data of
        Some (v # vs) \<Rightarrow> v # vs
      | _ \<Rightarrow> (case cl_histories data of Some hs \<Rightarrow> hs | None \<Rightarrow> []))"

text \<open>
  The \<^verbatim>\<open>while True\<close> loop of \<^verbatim>\<open>get_assignee_changes\<close>, with the changes collected
  so far. A tracker that never ends its pages keeps the loop running: the value is
  \<open>None\<close> then.
\<close>

partial_function (option) changelog_pages ::
  "(nat \<Rightarrow> changelog_data response) \<Rightarrow> string \<Rightarrow> nat \<Rightarrow> change list
     \<Rightarrow> (error + change list \<times> log_line list) option" where
  "changelog_pages get key start_at changes =
     (let r = get start_at in
      if status_code r \<noteq> 200
      then Some (Inr (changes, [ChangelogError (status_code r) key (resp_text r)]))
      else
        (let data = resp_json r in
         case collect_histories (histories_of data) of
           Inl e \<Rightarrow> Some (Inl e)
         | Inr new \<Rightarrow>
             (case cl_total data of
                None \<Rightarrow>
                  if \<not> (case cl_isLast data of None \<Rightarrow> True | Some b \<Rightarrow> b)
                  then changelog_pages get key (start_at + 100) (changes @ new)
                  else Some (Inr (changes @ new, []))
              | Some total_count \<Rightarrow>
                  if total_count \<le> int (start_at + 100) then Some (Inr (changes @ new, []))
                  else changelog_pages get key (start_at + 100) (changes @ new))))"

definition get_assignee_changes ::
  "world \<Rightarrow> string \<Rightarrow> (error + change list \<times> log_line list) option" where
  "get_assignee_changes w key =
     (case changelog_pages (changelog_get w key) key 0 [] of
        None \<Rightarrow> None
      | Some (Inl e) \<Rightarrow> Some (Inl e)
      | Some (Inr (changes, log)) \<Rightarrow> Some (Inr (sort_key created_dt changes, log)))"

section \<open>The run\<close>

record args =
  arg_projects :: string
  arg_date_from :: string
  arg_date_to :: string
  arg_in_progress_statuses :: string
  arg_users :: string
  arg_use_accountid :: bool
  arg_extra_jql :: "string option"
  arg_csv :: string

record row =
  r_key :: string
  r_summary :: string
  r_project :: string
  r_type :: string
  r_status :: string
  r_assignee_display :: string
  r_assignee_accountId :: string
  r_assignees_during_window_display :: string
  r_assignees_during_window_accountIds :: string
  r_matched_assignees_during_window :: string
  r_first_assignee_in_window :: "string option"
  r_last_assignee_in_window :: "string option"
  r_created :: string
  r_updated :: string
  r_resolved :: string

text \<open>
  \<^verbatim>\<open>env(name)\<close> and \<^verbatim>\<open>jira_session()\<close>: a variable that is unset or empty ends the
  run with \<^verbatim>\<open>sys.exit(1)\<close>. The value is the base address.
\<close>

definition env :: "world \<Rightarrow> string \<Rightarrow> error + string" where
  "env w name =
     (if truthy (getenv w name) then Inr (the (getenv w name)) else Inl (SystemExit 1))"

definition jira_session :: "world \<Rightarrow> error + string" where
  "jira_session w =
     (case env w ''JIRA_EMAIL'' of Inl e \<Rightarrow> Inl e | Inr email \<Rightarrow>
     (case env w ''JIRA_API_TOKEN'' of Inl e \<Rightarrow> Inl e | Inr token \<Rightarrow>
     (case env w ''JIRA_BASE_URL'' of Inl e \<Rightarrow> Inl e
      | Inr base \<Rightarrow> Inr (rev (dropWhile (\<lambda>c. c = CHR ''/'') (rev base))))))"

text \<open>The body of the loop of \<^verbatim>\<open>main\<close> over the issues: one row for one issue.\<close>

definition process_issue ::
  "world \<Rightarrow> string list option \<Rightarrow> bool \<Rightarrow> datetime \<Rightarrow> datetime \<Rightarrow> issue
     \<Rightarrow> (error + row \<times> log_line list) option" where
  "process_issue w users use_accountid window_start window_end it =
     (let f = issue_fields_of it;
          cur = (case assignee f of
                   None \<Rightarrow> \<lparr>accountId = None, displayName = None\<rparr>
                 | Some u \<Rightarrow> u)
      in
      case get_assignee_changes w (issue_key it) of
        None \<Rightarrow> None
      | Some (Inl e) \<Rightarrow> Some (Inl e)
      | Some (Inr (changes, log)) \<Rightarrow>
          (case compute_assignee_window_info f changes window_start window_end of
             Inl e \<Rightarrow> Some (Inl e)
           | Inr win \<Rightarrow>
               Some (Inr
                 (\<lparr>r_key = issue_key it,
                   r_summary = (case summary f of None \<Rightarrow> [] | Some x \<Rightarrow> x),
                   r_project = (case project_key f of None \<Rightarrow> [] | Some x \<Rightarrow> x),
                   r_type = (case issuetype_name f of None \<Rightarrow> [] | Some x \<Rightarrow> x),
                   r_status = (case status_name f of None \<Rightarrow> [] | Some x \<Rightarrow> x),
                   r_assignee_display = or_str (displayName cur) [],
                   r_assignee_accountId = or_str (accountId cur) [],
                   r_assignees_during_window_display = assignees_during_window_display win,
                   r_assignees_during_window_accountIds = assignees_during_window_accountIds win,
                   r_matched_assignees_during_window =
                     (if users \<noteq> None \<and> users \<noteq> Some []
                      then match_holders_to_user_filter (holders win) users use_accountid
                      else []),
                   r_first_assignee_in_window = first_assignee_in_window win,
                   r_last_assignee_in_window = last_assignee_in_window win,
                   r_created = (case created f of None \<Rightarrow> [] | Some x \<Rightarrow> x),
                   r_updated = (case updated f of None \<Rightarrow> [] | Some x \<Rightarrow> x),
                   r_resolved = or_str (resolutiondate f) []\<rparr>,
                  log))))"

text \<open>The issues of one page of the search, in order; an exception ends the run.\<close>

fun process_issues ::
  "world \<Rightarrow> string list option \<Rightarrow> bool \<Rightarrow> datetime \<Rightarrow> datetime \<Rightarrow> issue list
     \<Rightarrow> row list \<times> log_line list \<Rightarrow> (error + row list \<times> log_line list) option" where
  "process_issues w users use_accountid window_start window_end [] out = Some (Inr out)"
| "process_issues w users use_accountid window_start window_end (it # its) out =
     (case process_issue w users use_accountid window_start window_end it of
        None \<Rightarrow> None
      | Some (Inl e) \<Rightarrow> Some (Inl e)
      | Some (Inr (r, log)) \<Rightarrow>
          process_issues w users use_accountid window_start window_end its
            (fst out @ [r], snd out @ log))"

text \<open>
  \<^verbatim>\<open>for it in search_issues(...)\<close>: the generator asks for a page when the loop has
  used up the page before, and a page that is not answered with 200 ends the run with
  \<^verbatim>\<open>sys.exit(2)\<close>.
\<close>

partial_function (option) search_loop ::
  "world \<Rightarrow> string list option \<Rightarrow> bool \<Rightarrow> datetime \<Rightarrow> datetime \<Rightarrow> string option
     \<Rightarrow> row list \<times> log_line list \<Rightarrow> (error + row list \<times> log_line list) option" where
  "search_loop w users use_accountid window_start window_end next_token out =
     (let r = search_post w next_token in
      if status_code r \<noteq> 200 then Some (Inl (SystemExit 2))
      else
        (case process_issues w users use_accountid window_start window_end
                (sd_issues (resp_json r)) out of
           None \<Rightarrow> None
         | Some (Inl e) \<Rightarrow> Some (Inl e)
         | Some (Inr out') \<Rightarrow>
             if sd_isLast (resp_json r) then Some (Inr out')
             else if \<not> truthy (sd_nextPageToken (resp_json r)) then Some (Inr out')
             else search_loop w users use_accountid window_start window_end
                    (sd_nextPageToken (resp_json r)) out'))"

text \<open>
  \<^verbatim>\<open>main\<close>, from the parsed arguments to the rows and the lines on \<^verbatim>\<open>stderr\<close>.
  The query text is built from the arguments alone and takes no part in what follows.
\<close>

definition main :: "args \<Rightarrow> world \<Rightarrow> (error + row list \<times> log_line list) option" where
  "main a w =
     (if csv_list (arg_projects a) = [] then Some (Inl (SystemExit 1))
      else if csv_list (arg_in_progress_statuses a) = [] then Some (Inl (SystemExit 1))
      else
        (let users = (if arg_users a \<noteq> [] then Some (csv_list (arg_users a)) else None) in
         case jira_session w of
           Inl e \<Rightarrow> Some (Inl e)
         | Inr base \<Rightarrow>
             (case parse_date_ymd_utc (arg_date_from a) False of
                Inl e \<Rightarrow> Some (Inl e)
              | Inr window_start \<Rightarrow>
                  (case parse_date_ymd_utc (arg_date_to a) True of
                     Inl e \<Rightarrow> Some (Inl e)
                   | Inr window_end \<Rightarrow>
                       search_loop w users (arg_use_accountid a) window_start window_end
                         None ([], [])))))"

section \<open>Notions of the specification\<close>

text \<open>
  The interval the specification describes for two neighbouring events: from the first
  event to one microsecond before the second, held by whom the first event assigned.
\<close>

definition pair_interval :: "change \<Rightarrow> change \<Rightarrow> interval" where
  "pair_interval cur nxt =
     \<lparr>iv_start = created_dt cur, iv_end = created_dt nxt - 1,
      iv_id = to_id cur, iv_name = to_name cur\<rparr>"


text \<open>The identity field the mode selects: the id in accountid mode, else the name.\<close>

definition selected_field :: "bool \<Rightarrow> holder \<Rightarrow> string option" where
  "selected_field use_accountid h = (if use_accountid then h_id h else h_name h)"

text \<open>
  The matching rule in the specification's words: both sides trimmed and case-folded.
\<close>

definition spec_matches :: "string list \<Rightarrow> bool \<Rightarrow> holder \<Rightarrow> bool" where
  "spec_matches users use_accountid h \<longleftrightarrow>
     (case selected_field use_accountid h of
        None \<Rightarrow> False
      | Some v \<Rightarrow> lower (strip v) \<in> set (map (\<lambda>u. lower (strip u)) users))"

text \<open>
  The matching rule of the program: the filter entries trimmed and lower-cased, the
  holder's field lower-cased only, and a field that is absent or empty never matches.
\<close>

definition holder_matches :: "string list \<Rightarrow> bool \<Rightarrow> holder \<Rightarrow> bool" where
  "holder_matches users use_accountid h \<longleftrightarrow>
     (case selected_field use_accountid h of
        None \<Rightarrow> False
      | Some v \<Rightarrow> v \<noteq> [] \<and> lower v \<in> set (map (\<lambda>u. lower (strip u)) users))"

text \<open>The same rule with \<^verbatim>\<open>str.lower\<close> and \<^verbatim>\<open>str.strip\<close> as parameters.\<close>

definition holder_matches_with ::
  "(string \<Rightarrow> string) \<Rightarrow> (string \<Rightarrow> string) \<Rightarrow> string list \<Rightarrow> bool \<Rightarrow> holder \<Rightarrow> bool" where
  "holder_matches_with lower_fn strip_fn users use_accountid h \<longleftrightarrow>
     (case selected_field use_accountid h of
        None \<Rightarrow> False
      | Some v \<Rightarrow> v \<noteq> [] \<and> lower_fn v \<in> set (map (\<lambda>u. lower_fn (strip_fn u)) users))"

text \<open>
  What a matched holder is shown as: its name, or in accountid mode its id when it has
  no name.
\<close>

definition matched_display :: "bool \<Rightarrow> holder \<Rightarrow> string" where
  "matched_display use_accountid h =
     (if use_accountid then or_str (h_name h) (or_str (h_id h) []) else or_str (h_name h) [])"

section \<open>Example data\<close>

text \<open>
  Two reassignments on 2025-07-02 and 2025-07-03 at 10:00 UTC, and the fields of an issue
  with and without an assignee.
\<close>

definition unassigned :: issue_fields where
  "unassigned =
     \<lparr>assignee = None, summary = Some ''Fix login'', project_key = Some ''TBR'',
      issuetype_name = Some ''Bug'', status_name = Some ''In Progress'',
      created = Some ''2025-06-30T08:00:00.000+0000'',
      updated = Some ''2025-07-03T09:00:00.000+0000'', resolutiondate = None\<rparr>"

definition held_by_carol :: issue_fields where
  "held_by_carol =
     unassigned\<lparr>assignee := Some \<lparr>accountId = Some ''u3'', displayName = Some ''Carol''\<rparr>\<rparr>"

definition alice_to_bob :: change where
  "alice_to_bob =
     \<lparr>created_dt = 63887047200000000, from_id = Some ''u1'', from_name = Some ''Alice'',
      to_id = Some ''u2'', to_name = Some ''Bob''\<rparr>"

definition bob_to_carol :: change where
  "bob_to_carol =
     \<lparr>created_dt = 63887133600000000, from_id = Some ''u2'', from_name = Some ''Bob'',
      to_id = Some ''u3'', to_name = Some ''Carol''\<rparr>"

definition at_datetime_min :: change where
  "at_datetime_min = alice_to_bob\<lparr>created_dt := DT_MIN\<rparr>"

text \<open>Holders in the window of the scenario, one with a padded name and one with no name.\<close>

definition alice_holder :: holder where
  "alice_holder =
     \<lparr>h_id = Some ''u1'', h_name = Some ''Alice'',
      overlap_start = 63886924800000000, overlap_end = 63887047199999999\<rparr>"

definition bob_holder :: holder where
  "bob_holder =
     \<lparr>h_id = Some ''u2'', h_name = Some ''Bob'',
      overlap_start = 63887047200000000, overlap_end = 63887183999999000\<rparr>"

definition padded_alice_holder :: holder where
  "padded_alice_holder = alice_holder\<lparr>h_name := Some '' Alice''\<rparr>"

definition nameless_holder :: holder where
  "nameless_holder = bob_holder\<lparr>h_id := Some ''bob'', h_name := None\<rparr>"

text \<open>
  A lower-casing that goes beyond ASCII (the byte 0xC9, the letter E with acute accent in
  Latin-1, is mapped to 0xE9), and a holder whose name starts with that letter.
\<close>

definition accent_lower :: "string \<Rightarrow> string" where
  "accent_lower s = map (\<lambda>c. if c = CHR 0xC9 then CHR 0xE9 else lower_char c) s"

definition eric_holder :: holder where
  "eric_holder = alice_holder\<lparr>h_id := Some ''u4'', h_name := Some (CHR 0xC9 # ''ric'')\<rparr>"

section \<open>Pages of a history\<close>

text \<open>
  Whether the loop of \<^verbatim>\<open>get_assignee_changes\<close> asks for another page after a page
  answered with 200, and the states the loop passes through: it starts at
  \<^verbatim>\<open>startAt\<close> 0 with no changes, and goes from a page that was read and is not the
  last to the next page with the changes of the page added.
\<close>

definition more_pages :: "changelog_data \<Rightarrow> nat \<Rightarrow> bool" where
  "more_pages data start_at \<longleftrightarrow>
     (case cl_total data of
        None \<Rightarrow> \<not> (case cl_isLast data of None \<Rightarrow> True | Some b \<Rightarrow> b)
      | Some total_count \<Rightarrow> \<not> total_count \<le> int (start_at + 100))"

inductive reaches :: "(nat \<Rightarrow> changelog_data response) \<Rightarrow> nat \<Rightarrow> change list \<Rightarrow> bool"
  for get :: "nat \<Rightarrow> changelog_data response" where
  first_page: "reaches get 0 []"
| next_page:
    "reaches get start_at changes \<Longrightarrow>
     status_code (get start_at) = 200 \<Longrightarrow>
     collect_histories (histories_of (resp_json (get start_at))) = Inr new \<Longrightarrow>
     more_pages (resp_json (get start_at)) start_at \<Longrightarrow>
     reaches get (start_at + 100) (changes @ new)"

text \<open>
  The states the loop of \<^verbatim>\<open>main\<close> over the pages of the search passes through: it
  starts with no token and no rows, and goes from a page whose issues were all processed
  and that is not the last to the page of the next token.
\<close>

inductive search_reaches ::
  "world \<Rightarrow> string list option \<Rightarrow> bool \<Rightarrow> datetime \<Rightarrow> datetime \<Rightarrow> string option
     \<Rightarrow> row list \<times> log_line list \<Rightarrow> bool"
  for w :: world and users :: "string list option" and use_accountid :: bool
    and window_start :: datetime and window_end :: datetime where
  first_search: "search_reaches w users use_accountid window_start window_end None ([], [])"
| next_search:
    "search_reaches w users use_accountid window_start window_end token out \<Longrightarrow>
     status_code (search_post w token) = 200 \<Longrightarrow>
     process_issues w users use_accountid window_start window_end
       (sd_issues (resp_json (search_post w token))) out = Some (Inr out') \<Longrightarrow>
     \<not> sd_isLast (resp_json (search_post w token)) \<Longrightarrow>
     truthy (sd_nextPageToken (resp_json (search_post w token))) \<Longrightarrow>
     search_reaches w users use_accountid window_start window_end
       (sd_nextPageToken (resp_json (search_post w token))) out'"

section \<open>Example runs\<close>

text \<open>
  A tracker with the three environment variables set and a search answered in one page.
  The histories: none; one record with a malformed timestamp for the first issue; and a
  first page with the reassignment of the scenario followed by a second page answered
  with 500.
\<close>

definition tracker_env :: "string \<Rightarrow> string option" where
  "tracker_env =
     map_of [(''JIRA_EMAIL'', ''me@example.com''), (''JIRA_API_TOKEN'', ''secret''),
             (''JIRA_BASE_URL'', ''https://example.atlassian.net/'')]"

definition carol_issue :: issue where
  "carol_issue = \<lparr>issue_key = ''TBR-1'', issue_fields_of = held_by_carol\<rparr>"

definition open_issue :: issue where
  "open_issue = \<lparr>issue_key = ''TBR-2'', issue_fields_of = unassigned\<rparr>"

definition one_search_page :: "issue list \<Rightarrow> string option \<Rightarrow> search_data response" where
  "one_search_page its token =
     \<lparr>status_code = 200, resp_text = [],
      resp_json = \<lparr>sd_issues = its, sd_isLast = True, sd_nextPageToken = None\<rparr>\<rparr>"

definition assignee_item :: history_item where
  "assignee_item =
     \<lparr>item_field = Some ''assignee'', item_from = Some ''u1'', item_fromString = Some ''Alice'',
      item_to = Some ''u2'', item_toString = Some ''Bob''\<rparr>"

definition changelog_page :: "history list \<Rightarrow> int \<Rightarrow> changelog_data response" where
  "changelog_page hs total_count =
     \<lparr>status_code = 200, resp_text = [],
      resp_json = \<lparr>cl_values = Some hs, cl_histories = None,
                   cl_total = Some total_count, cl_isLast = None\<rparr>\<rparr>"

definition server_error :: "changelog_data response" where
  "server_error =
     \<lparr>status_code = 500, resp_text = ''Internal Server Error'',
      resp_json = \<lparr>cl_values = None, cl_histories = None, cl_total = None, cl_isLast = None\<rparr>\<rparr>"

definition quiet_world :: world where
  "quiet_world =
     \<lparr>getenv = tracker_env, search_post = one_search_page [carol_issue],
      changelog_get = (\<lambda>key start_at. changelog_page [] 0)\<rparr>"

definition malformed_world :: world where
  "malformed_world =
     \<lparr>getenv = tracker_env, search_post = one_search_page [carol_issue, open_issue],
      changelog_get = (\<lambda>key start_at.
        if key = ''TBR-1''
        then changelog_page
               [\<lparr>hist_created = Some ''2025-07-02 10:00'', hist_items = [assignee_item]\<rparr>] 1
        else changelog_page [] 0)\<rparr>"

definition second_page_fails_world :: world where
  "second_page_fails_world =
     \<lparr>getenv = tracker_env, search_post = one_search_page [carol_issue],
      changelog_get = (\<lambda>key start_at.
        if start_at = 0
        then changelog_page
               [\<lparr>hist_created = Some ''2025-07-02T10:00:00.000+0000'',
                 hist_items = [assignee_item]\<rparr>] 150
        else server_error)\<rparr>"




definition scenario_args :: args where
  "scenario_args =
     \<lparr>arg_projects = ''TBR'', arg_date_from = ''2025-07-01'', arg_date_to = ''2025-07-03'',
      arg_in_progress_statuses = ''In Progress'', arg_users = [], arg_use_accountid = False,
      arg_extra_jql = None, arg_csv = []\<rparr>"

definition inverted_args :: args where
  "inverted_args = scenario_args\<lparr>arg_date_from := ''2025-07-03'', arg_date_to := ''2025-07-01''\<rparr>"

section \<open>Properties of the timeline\<close>

lemmas example_defs = unassigned_def held_by_carol_def alice_to_bob_def bob_to_carol_def
  at_datetime_min_def

lemma minus_microseconds_pos:
  "DT_MIN < dt \<Longrightarrow> minus_microseconds dt (Suc 0) = Inr (dt - Suc 0)"
  by (simp add: minus_microseconds_def DT_MIN_def)


lemma between_changes_ok:
  "\<forall>e \<in> set (tl evs). DT_MIN < created_dt e \<Longrightarrow>
   between_changes evs = Inr (map2 pair_interval evs (tl evs))"
proof (induction evs rule: between_changes.induct)
  case (1 cur nxt rest)
  then show ?case
    by (simp add: minus_microseconds_pos pair_interval_def)
qed simp_all



lemma build_intervals_ok:
  assumes "evs \<noteq> []" "\<forall>e \<in> set evs. DT_MIN < created_dt e"
  shows "build_intervals f evs =
     Inr (\<lparr>iv_start = DT_MIN, iv_end = created_dt (hd evs) - 1,
           iv_id = from_id (hd evs), iv_name = from_name (hd evs)\<rparr>
          # map2 pair_interval evs (tl evs)
          @ [\<lparr>iv_start = created_dt (last evs), iv_end = DT_MAX,
               iv_id = to_id (last evs), iv_name = to_name (last evs)\<rparr>])"
proof -
  from assms have "\<forall>e \<in> set (tl evs). DT_MIN < created_dt e"
    by (cases evs) auto
  then have "between_changes evs = Inr (map2 pair_interval evs (tl evs))"
    by (rule between_changes_ok)
  moreover from assms
  have "minus_microseconds (created_dt (hd evs)) (Suc 0) = Inr (created_dt (hd evs) - Suc 0)"
    by (intro minus_microseconds_pos) (cases evs, auto)
  ultimately show ?thesis using assms(1)
    by (simp add: build_intervals_def Let_def)
qed

lemma build_intervals_overflow:
  "evs \<noteq> [] \<Longrightarrow> created_dt (hd evs) = DT_MIN \<Longrightarrow> build_intervals f evs = Inl OverflowError"
  by (simp add: build_intervals_def Let_def minus_microseconds_def)






lemma sorted_first_pos:
  assumes "evs \<noteq> []" "sorted (map created_dt evs)" "DT_MIN < created_dt (hd evs)"
  shows "\<forall>e \<in> set evs. DT_MIN < created_dt e"
proof
  fix e assume e: "e \<in> set evs"
  from assms(1) obtain x xs where evs: "evs = x # xs" by (cases evs) auto
  with assms(2) e have "created_dt x \<le> created_dt e" by auto
  with assms(3) evs show "DT_MIN < created_dt e" by simp
qed



text \<open>
  Claim C2, as amended. For a sorted, non-empty sequence of \<open>n\<close> change events whose
  first event is later than \<^verbatim>\<open>datetime.min\<close>, the program builds exactly \<open>n + 1\<close>
  intervals: the first from \<^verbatim>\<open>datetime.min\<close> to one microsecond before the first
  event, held by whom the first event took the issue from; for each pair of neighbours
  an interval from the earlier event to one microsecond before the later, held by whom
  the earlier event assigned; and the last from the last event to \<^verbatim>\<open>datetime.max\<close>,
  held by whom the last event assigned.
\<close>

theorem reconstructor_n_plus_one:
  assumes "evs \<noteq> []" and "sorted (map created_dt evs)"
    and "DT_MIN < created_dt (hd evs)"
  shows "\<exists>ivs. build_intervals f evs = Inr ivs
    \<and> length ivs = length evs + 1
    \<and> ivs ! 0 = \<lparr>iv_start = DT_MIN, iv_end = created_dt (evs ! 0) - 1,
                 iv_id = from_id (evs ! 0), iv_name = from_name (evs ! 0)\<rparr>
    \<and> (\<forall>i. i + 1 < length evs \<longrightarrow>
          ivs ! (i + 1) = \<lparr>iv_start = created_dt (evs ! i),
                           iv_end = created_dt (evs ! (i + 1)) - 1,
                           iv_id = to_id (evs ! i), iv_name = to_name (evs ! i)\<rparr>)
    \<and> ivs ! length evs = \<lparr>iv_start = created_dt (evs ! (length evs - 1)), iv_end = DT_MAX,
                           iv_id = to_id (evs ! (length evs - 1)),
                           iv_name = to_name (evs ! (length evs - 1))\<rparr>"
proof -
  define mid where "mid = map2 pair_interval evs (tl evs)"
  define fst_iv where "fst_iv = \<lparr>iv_start = DT_MIN, iv_end = created_dt (hd evs) - 1,
           iv_id = from_id (hd evs), iv_name = from_name (hd evs)\<rparr>"
  define lst_iv where "lst_iv = \<lparr>iv_start = created_dt (last evs), iv_end = DT_MAX,
               iv_id = to_id (last evs), iv_name = to_name (last evs)\<rparr>"
  have pos: "\<forall>e \<in> set evs. DT_MIN < created_dt e"
    using assms by (rule sorted_first_pos)
  have b: "build_intervals f evs = Inr (fst_iv # mid @ [lst_iv])"
    unfolding fst_iv_def mid_def lst_iv_def by (rule build_intervals_ok [OF assms(1) pos])
  have lm: "length mid = length evs - 1"
    by (simp add: mid_def)
  have l: "length (fst_iv # mid @ [lst_iv]) = length evs + 1"
    using assms(1) lm by (cases evs) simp_all
  have h0: "(fst_iv # mid @ [lst_iv]) ! 0 = \<lparr>iv_start = DT_MIN, iv_end = created_dt (evs ! 0) - 1,
                 iv_id = from_id (evs ! 0), iv_name = from_name (evs ! 0)\<rparr>"
    using assms(1) by (simp add: fst_iv_def hd_conv_nth)
  have hm: "(fst_iv # mid @ [lst_iv]) ! (i + 1) = \<lparr>iv_start = created_dt (evs ! i),
                           iv_end = created_dt (evs ! (i + 1)) - 1,
                           iv_id = to_id (evs ! i), iv_name = to_name (evs ! i)\<rparr>"
    if "i + 1 < length evs" for i
  proof -
    from that lm have i: "i < length mid" by simp
    then have "(fst_iv # mid @ [lst_iv]) ! (i + 1) = mid ! i"
      by (simp add: nth_append)
    also have "\<dots> = pair_interval (evs ! i) (tl evs ! i)"
      using that by (simp add: mid_def)
    also have "tl evs ! i = evs ! (i + 1)"
      using that by (simp add: nth_tl)
    finally show ?thesis by (simp add: pair_interval_def)
  qed
  have hl: "(fst_iv # mid @ [lst_iv]) ! length evs =
      \<lparr>iv_start = created_dt (evs ! (length evs - 1)), iv_end = DT_MAX,
       iv_id = to_id (evs ! (length evs - 1)),
       iv_name = to_name (evs ! (length evs - 1))\<rparr>"
  proof -
    from assms(1) lm have "length evs = Suc (length mid)" by (cases evs) simp_all
    then have "(fst_iv # mid @ [lst_iv]) ! length evs = lst_iv" by simp
    then show ?thesis using assms(1) by (simp add: lst_iv_def last_conv_nth)
  qed
  from b l h0 hm hl show ?thesis by blast
qed

theorem reconstructor_n_plus_one_witness:
  "[alice_to_bob, bob_to_carol] \<noteq> []
   \<and> sorted (map created_dt [alice_to_bob, bob_to_carol])
   \<and> DT_MIN < created_dt (hd [alice_to_bob, bob_to_carol])
   \<and> (\<exists>ivs. build_intervals unassigned [alice_to_bob, bob_to_carol] = Inr ivs
        \<and> length ivs = 3
        \<and> ivs ! 0 = \<lparr>iv_start = DT_MIN, iv_end = 63887047199999999,
                      iv_id = Some ''u1'', iv_name = Some ''Alice''\<rparr>
        \<and> ivs ! 1 = \<lparr>iv_start = 63887047200000000, iv_end = 63887133599999999,
                      iv_id = Some ''u2'', iv_name = Some ''Bob''\<rparr>
        \<and> ivs ! 2 = \<lparr>iv_start = 63887133600000000, iv_end = DT_MAX,
                      iv_id = Some ''u3'', iv_name = Some ''Carol''\<rparr>)"
proof -
  let ?evs = "[alice_to_bob, bob_to_carol]"
  have h1: "?evs \<noteq> []" by simp
  have h2: "sorted (map created_dt ?evs)"
    by (simp add: example_defs)
  have h3: "DT_MIN < created_dt (hd ?evs)"
    by (simp add: example_defs DT_MIN_def)
  from reconstructor_n_plus_one [OF h1 h2 h3, of unassigned]
  obtain ivs where b: "build_intervals unassigned ?evs = Inr ivs"
    and l: "length ivs = length ?evs + 1"
    and i0: "ivs ! 0 = \<lparr>iv_start = DT_MIN, iv_end = created_dt (?evs ! 0) - 1,
                 iv_id = from_id (?evs ! 0), iv_name = from_name (?evs ! 0)\<rparr>"
    and im: "\<forall>i. i + 1 < length ?evs \<longrightarrow>
          ivs ! (i + 1) = \<lparr>iv_start = created_dt (?evs ! i),
                           iv_end = created_dt (?evs ! (i + 1)) - 1,
                           iv_id = to_id (?evs ! i), iv_name = to_name (?evs ! i)\<rparr>"
    and il: "ivs ! length ?evs = \<lparr>iv_start = created_dt (?evs ! (length ?evs - 1)), iv_end = DT_MAX,
                           iv_id = to_id (?evs ! (length ?evs - 1)),
                           iv_name = to_name (?evs ! (length ?evs - 1))\<rparr>"
    by blast
  from l have l': "length ivs = 3" by simp
  from i0 have i0': "ivs ! 0 = \<lparr>iv_start = DT_MIN, iv_end = 63887047199999999,
                      iv_id = Some ''u1'', iv_name = Some ''Alice''\<rparr>"
    by (simp add: example_defs)
  from spec [OF im, of 0] have i1': "ivs ! 1 = \<lparr>iv_start = 63887047200000000, iv_end = 63887133599999999,
                      iv_id = Some ''u2'', iv_name = Some ''Bob''\<rparr>"
    by (simp add: example_defs)
  from il have i2': "ivs ! 2 = \<lparr>iv_start = 63887133600000000, iv_end = DT_MAX,
                      iv_id = Some ''u3'', iv_name = Some ''Carol''\<rparr>"
    by (simp add: example_defs numeral_2_eq_2)
  from h1 h2 h3 b l' i0' i1' i2' show ?thesis by blast
qed

text \<open>Evaluation of the parsers and of the calendar on concrete texts.\<close>

lemmas parse_defs = parse_api_dt_def strptime_api_def split_where_def number_field_def day_field_def
  fraction_field_def offset_field_def offset_seconds_def is_digit_def digit_val_def int_of_digits_def
  mk_datetime_def days_in_month_def days_before_month_def days_before_year_def is_leap_def
  astimezone_utc_def DT_MIN_def DT_MAX_def parse_date_ymd_utc_def strptime_ymd_def replace_time_def

text \<open>
  The claim as it is written has no condition on the first event. The timestamp
  0001-01-01T00:00:00.000+0000 parses to \<^verbatim>\<open>datetime.min\<close>, and one microsecond before
  it is no datetime: the subtraction raises \<^verbatim>\<open>OverflowError\<close> and no interval is built.
\<close>

theorem reconstructor_datetime_min_counterexample:
  "[at_datetime_min] \<noteq> []
   \<and> sorted (map created_dt [at_datetime_min])
   \<and> parse_api_dt ''0001-01-01T00:00:00.000+0000'' = Inr (created_dt at_datetime_min)
   \<and> build_intervals unassigned [at_datetime_min] = Inl OverflowError"
proof -
  have "parse_api_dt ''0001-01-01T00:00:00.000+0000'' = Inr (created_dt at_datetime_min)"
    by (simp add: parse_defs upt_rec example_defs)
  moreover have "build_intervals unassigned [at_datetime_min] = Inl OverflowError"
    by (rule build_intervals_overflow) (simp_all add: example_defs)
  ultimately show ?thesis by simp
qed

text \<open>
  Claim C3. For an empty sequence of change events the program builds exactly one
  interval, from \<^verbatim>\<open>datetime.min\<close> to \<^verbatim>\<open>datetime.max\<close>, whose holder is the issue's
  current assignee: the id and the display name of the \<^verbatim>\<open>assignee\<close> field, both absent
  when the issue has no assignee.
\<close>

theorem empty_sequence_single_interval:
  "build_intervals f [] =
     Inr [\<lparr>iv_start = DT_MIN, iv_end = DT_MAX,
           iv_id = (case assignee f of None \<Rightarrow> None | Some u \<Rightarrow> accountId u),
           iv_name = (case assignee f of None \<Rightarrow> None | Some u \<Rightarrow> displayName u)\<rparr>]"
  by (simp add: build_intervals_def split: option.splits)

theorem empty_sequence_single_interval_witness:
  "build_intervals held_by_carol [] =
     Inr [\<lparr>iv_start = DT_MIN, iv_end = DT_MAX, iv_id = Some ''u3'', iv_name = Some ''Carol''\<rparr>]
   \<and> build_intervals unassigned [] =
     Inr [\<lparr>iv_start = DT_MIN, iv_end = DT_MAX, iv_id = None, iv_name = None\<rparr>]"
  using empty_sequence_single_interval [of held_by_carol]
    empty_sequence_single_interval [of unassigned]
  by (simp add: example_defs)

section \<open>Properties of the window intersection\<close>






lemma holders_sorted_eval:
  "holders_sorted [] = []"
  "holders_sorted (h # hs) = insort_key (\<lambda>h. (overlap_start h, overlap_end h)) h (holders_sorted hs)"
  by (simp_all add: holders_sorted_def)


section \<open>The scenario of the specification\<close>

lemma scenario_window:
  "parse_date_ymd_utc ''2025-07-01'' False = Inr 63886924800000000"
  "parse_date_ymd_utc ''2025-07-03'' True = Inr 63887183999999000"
  by (simp_all add: parse_defs upt_rec)

lemma scenario_event:
  "parse_api_dt ''2025-07-02T10:00:00.000+0000'' = Inr 63887047200000000"
  by (simp add: parse_defs upt_rec)

lemma scenario_instants:
  "mk_datetime 2025 7 2 9 59 59 999999 = Inr 63887047199999999"
  "mk_datetime 2025 7 2 9 59 59 999000 = Inr 63887047199999000"
  by (simp_all add: parse_defs upt_rec)

lemma scenario_intervals:
  "build_intervals f
     [\<lparr>created_dt = 63887047200000000, from_id = a, from_name = Some ''Alice'',
       to_id = b, to_name = Some ''Bob''\<rparr>]
   = Inr [\<lparr>iv_start = DT_MIN, iv_end = 63887047199999999, iv_id = a, iv_name = Some ''Alice''\<rparr>,
          \<lparr>iv_start = 63887047200000000, iv_end = DT_MAX, iv_id = b, iv_name = Some ''Bob''\<rparr>]"
  by (simp add: build_intervals_def minus_microseconds_def DT_MIN_def)

lemma scenario_holders:
  "unique_holders {} (holders_sorted (find_overlaps
      [\<lparr>iv_start = DT_MIN, iv_end = 63887047199999999, iv_id = a, iv_name = Some ''Alice''\<rparr>,
       \<lparr>iv_start = 63887047200000000, iv_end = DT_MAX, iv_id = b, iv_name = Some ''Bob''\<rparr>]
      63886924800000000 63887183999999000))
   = [\<lparr>h_id = a, h_name = Some ''Alice'',
        overlap_start = 63886924800000000, overlap_end = 63887047199999999\<rparr>,
      \<lparr>h_id = b, h_name = Some ''Bob'',
        overlap_start = 63887047200000000, overlap_end = 63887183999999000\<rparr>]"
  by (simp add: overlaps_def DT_MIN_def DT_MAX_def holders_sorted_eval)

text \<open>
  Claim C6, as amended. With the window 2025-07-01 to 2025-07-03 and the single event
  at 2025-07-02T10:00Z from Alice to Bob, the timeline is a first interval from
  \<^verbatim>\<open>datetime.min\<close> to 2025-07-02T09:59:59.999999Z (one microsecond before the event)
  held by Alice and a second from 2025-07-02T10:00Z to \<^verbatim>\<open>datetime.max\<close> held by Bob;
  the holders in the window are Alice, then Bob; the first is Alice and the last Bob.
  The ids of the two identities are arbitrary.
\<close>

theorem scenario_alice_bob:
  "parse_date_ymd_utc ''2025-07-01'' False = Inr 63886924800000000
   \<and> parse_date_ymd_utc ''2025-07-03'' True = Inr 63887183999999000
   \<and> parse_api_dt ''2025-07-02T10:00:00.000+0000'' = Inr 63887047200000000
   \<and> mk_datetime 2025 7 2 9 59 59 999999 = Inr 63887047199999999
   \<and> build_intervals f
        [\<lparr>created_dt = 63887047200000000, from_id = a, from_name = Some ''Alice'',
          to_id = b, to_name = Some ''Bob''\<rparr>]
      = Inr [\<lparr>iv_start = DT_MIN, iv_end = 63887047199999999,
               iv_id = a, iv_name = Some ''Alice''\<rparr>,
             \<lparr>iv_start = 63887047200000000, iv_end = DT_MAX,
               iv_id = b, iv_name = Some ''Bob''\<rparr>]
   \<and> (\<exists>info.
         compute_assignee_window_info f
           [\<lparr>created_dt = 63887047200000000, from_id = a, from_name = Some ''Alice'',
             to_id = b, to_name = Some ''Bob''\<rparr>]
           63886924800000000 63887183999999000 = Inr info
         \<and> map h_name (holders info) = [Some ''Alice'', Some ''Bob'']
         \<and> first_assignee_in_window info = Some ''Alice''
         \<and> last_assignee_in_window info = Some ''Bob''
         \<and> assignees_during_window_display info = ''Alice, Bob'')"
proof -
  let ?ev = "\<lparr>created_dt = 63887047200000000, from_id = a, from_name = Some ''Alice'',
             to_id = b, to_name = Some ''Bob''\<rparr>"
  let ?hs = "[\<lparr>h_id = a, h_name = Some ''Alice'',
        overlap_start = 63886924800000000, overlap_end = 63887047199999999\<rparr>,
      \<lparr>h_id = b, h_name = Some ''Bob'',
        overlap_start = 63887047200000000, overlap_end = 63887183999999000\<rparr>]"
  have c: "compute_assignee_window_info f [?ev] 63886924800000000 63887183999999000
      = Inr \<lparr>assignees_during_window_display = ''Alice, Bob'',
             assignees_during_window_accountIds =
               join_comma (map (\<lambda>h. the (h_id h)) (filter (\<lambda>h. truthy (h_id h)) ?hs)),
             first_assignee_in_window = Some ''Alice'',
             last_assignee_in_window = Some ''Bob'',
             holders = ?hs\<rparr>"
    unfolding compute_assignee_window_info_def scenario_intervals Let_def sum.case scenario_holders
    by simp
  have e: "\<exists>info.
         compute_assignee_window_info f [?ev] 63886924800000000 63887183999999000 = Inr info
         \<and> map h_name (holders info) = [Some ''Alice'', Some ''Bob'']
         \<and> first_assignee_in_window info = Some ''Alice''
         \<and> last_assignee_in_window info = Some ''Bob''
         \<and> assignees_during_window_display info = ''Alice, Bob''"
    unfolding c by (rule exI, intro conjI, rule refl) simp_all
  show ?thesis
    by (intro conjI scenario_window scenario_event scenario_instants(1) scenario_intervals e)
qed

theorem scenario_alice_bob_witness:
  "build_intervals unassigned [alice_to_bob]
      = Inr [\<lparr>iv_start = DT_MIN, iv_end = 63887047199999999,
               iv_id = Some ''u1'', iv_name = Some ''Alice''\<rparr>,
             \<lparr>iv_start = 63887047200000000, iv_end = DT_MAX,
               iv_id = Some ''u2'', iv_name = Some ''Bob''\<rparr>]
   \<and> (\<exists>info.
         compute_assignee_window_info unassigned [alice_to_bob]
           63886924800000000 63887183999999000 = Inr info
         \<and> map h_name (holders info) = [Some ''Alice'', Some ''Bob'']
         \<and> first_assignee_in_window info = Some ''Alice''
         \<and> last_assignee_in_window info = Some ''Bob'')"
proof -
  note t = scenario_alice_bob [of unassigned "Some ''u1''" "Some ''u2''", folded alice_to_bob_def]
  from t have "build_intervals unassigned [alice_to_bob]
      = Inr [\<lparr>iv_start = DT_MIN, iv_end = 63887047199999999,
               iv_id = Some ''u1'', iv_name = Some ''Alice''\<rparr>,
             \<lparr>iv_start = 63887047200000000, iv_end = DT_MAX,
               iv_id = Some ''u2'', iv_name = Some ''Bob''\<rparr>]"
    by (elim conjE)
  moreover from t obtain info where
    "compute_assignee_window_info unassigned [alice_to_bob]
           63886924800000000 63887183999999000 = Inr info"
    "map h_name (holders info) = [Some ''Alice'', Some ''Bob'']"
    "first_assignee_in_window info = Some ''Alice''"
    "last_assignee_in_window info = Some ''Bob''"
    by (elim conjE exE)
  ultimately show ?thesis
    by (intro conjI exI [of _ info])
qed

text \<open>
  The claim as it is written ends the first interval at 2025-07-02T09:59:59.999Z, one
  millisecond before the event. The program subtracts one microsecond.
\<close>

theorem scenario_millisecond_counterexample:
  "parse_api_dt ''2025-07-02T10:00:00.000+0000'' = Inr (created_dt alice_to_bob)
   \<and> (\<exists>iv1 iv2. build_intervals unassigned [alice_to_bob] = Inr [iv1, iv2]
         \<and> iv_name iv1 = Some ''Alice''
         \<and> Inr (iv_end iv1) \<noteq> mk_datetime 2025 7 2 9 59 59 999000
         \<and> Inr (iv_end iv1) = mk_datetime 2025 7 2 9 59 59 999999)"
proof -
  have "parse_api_dt ''2025-07-02T10:00:00.000+0000'' = Inr (created_dt alice_to_bob)"
    by (simp add: scenario_event alice_to_bob_def)
  moreover have "build_intervals unassigned [alice_to_bob]
      = Inr [\<lparr>iv_start = DT_MIN, iv_end = 63887047199999999,
               iv_id = Some ''u1'', iv_name = Some ''Alice''\<rparr>,
             \<lparr>iv_start = 63887047200000000, iv_end = DT_MAX,
               iv_id = Some ''u2'', iv_name = Some ''Bob''\<rparr>]"
    unfolding alice_to_bob_def by (rule scenario_intervals)
  ultimately show ?thesis
    by (simp add: scenario_instants)
qed

section \<open>Properties of the user filter\<close>

lemmas holder_defs = alice_holder_def bob_holder_def padded_alice_holder_def nameless_holder_def

lemmas string_defs = lower_def lower_char_def strip_def is_space_def or_str_def

lemma lower_Nil_iff: "lower s = [] \<longleftrightarrow> s = []"
  by (simp add: lower_def)

lemma match_out_step:
  "match_out (h # hs) (map (\<lambda>u. lower (strip u)) us) ua
     = (if holder_matches us ua h
        then matched_display ua h # match_out hs (map (\<lambda>u. lower (strip u)) us) ua
        else match_out hs (map (\<lambda>u. lower (strip u)) us) ua)"
proof (cases ua)
  case True
  then show ?thesis
    by (cases "h_id h")
      (simp_all add: holder_matches_def selected_field_def matched_display_def or_str_def)
next
  case False
  then show ?thesis
    by (cases "h_name h")
      (simp_all add: holder_matches_def selected_field_def matched_display_def or_str_def
        lower_Nil_iff Let_def)
qed

lemma match_out_filter:
  "match_out hs (map (\<lambda>u. lower (strip u)) us) ua
     = map (matched_display ua) (filter (holder_matches us ua) hs)"
proof (induction hs)
  case Nil
  show ?case by simp
next
  case (Cons h hs)
  then show ?case by (simp only: match_out_step) simp
qed

lemma match_out_with_lower: "match_out_with lower hs users_norm ua = match_out hs users_norm ua"
  by (induction hs arbitrary: ua) (simp_all add: Let_def)

lemma matcher_with_lower_strip:
  "match_holders_to_user_filter_with lower strip hs users ua
     = match_holders_to_user_filter hs users ua"
  by (simp add: match_holders_to_user_filter_with_def match_holders_to_user_filter_def
      match_out_with_lower split: option.splits)

lemma match_out_with_step:
  assumes "\<forall>s. lower_fn s = [] \<longleftrightarrow> s = []"
  shows "match_out_with lower_fn (h # hs) (map (\<lambda>u. lower_fn (strip_fn u)) us) ua
     = (if holder_matches_with lower_fn strip_fn us ua h
        then matched_display ua h # match_out_with lower_fn hs (map (\<lambda>u. lower_fn (strip_fn u)) us) ua
        else match_out_with lower_fn hs (map (\<lambda>u. lower_fn (strip_fn u)) us) ua)"
proof (cases ua)
  case True
  then show ?thesis
    by (cases "h_id h")
      (simp_all add: holder_matches_with_def selected_field_def matched_display_def or_str_def)
next
  case False
  then show ?thesis using assms
    by (cases "h_name h")
      (simp_all add: holder_matches_with_def selected_field_def matched_display_def or_str_def
        Let_def)
qed

lemma match_out_with_filter:
  assumes "\<forall>s. lower_fn s = [] \<longleftrightarrow> s = []"
  shows "match_out_with lower_fn hs (map (\<lambda>u. lower_fn (strip_fn u)) us) ua
     = map (matched_display ua) (filter (holder_matches_with lower_fn strip_fn us ua) hs)"
proof (induction hs)
  case Nil
  show ?case by simp
next
  case (Cons h hs)
  then show ?case by (simp only: match_out_with_step [OF assms]) simp
qed

lemma accent_lower_Nil_iff: "accent_lower s = [] \<longleftrightarrow> s = []"
  by (simp add: accent_lower_def)

text \<open>
  Claim C8, as amended. For every list of holders and every filter list, the matcher
  trims and lower-cases the filter entries and lower-cases the holder's selected field
  (the id in accountid mode, the display name otherwise) without trimming it: a holder is
  matched exactly when that field is present, is not empty and in lower case equals some
  filter entry trimmed and lower-cased. The result joins, in the order of the holders
  and each once, what the matched holders are shown as. Lower-casing and trimming are
  \<^verbatim>\<open>str.lower\<close> and \<^verbatim>\<open>str.strip\<close>, whatever they do to the text; of the first
  only this is used, that it gives the empty text for the empty text alone.
\<close>

theorem matcher_normalisation:
  assumes "\<forall>s. lower_fn s = [] \<longleftrightarrow> s = []"
  shows "match_out_with lower_fn hs (map (\<lambda>u. lower_fn (strip_fn u)) us) use_accountid
       = map (matched_display use_accountid)
           (filter (holder_matches_with lower_fn strip_fn us use_accountid) hs)
   \<and> match_holders_to_user_filter_with lower_fn strip_fn hs (Some us) use_accountid
       = (if us = [] then []
          else join_comma (out_unique {}
                 (map (matched_display use_accountid)
                    (filter (holder_matches_with lower_fn strip_fn us use_accountid) hs))))"
  by (simp add: match_out_with_filter [OF assms] match_holders_to_user_filter_with_def)

theorem matcher_normalisation_witness:
  "(\<forall>s. lower s = [] \<longleftrightarrow> s = [])
   \<and> (\<forall>s. accent_lower s = [] \<longleftrightarrow> s = [])
   \<and> match_holders_to_user_filter_with lower strip [alice_holder, bob_holder]
        (Some ['' ALICE '']) False = ''Alice''
   \<and> filter (holder_matches_with lower strip ['' ALICE ''] False) [alice_holder, bob_holder]
        = [alice_holder]
   \<and> match_holders_to_user_filter_with lower strip [alice_holder, bob_holder]
        (Some [''U2'', ''u1'']) True = ''Alice, Bob''
   \<and> match_holders_to_user_filter_with accent_lower strip [eric_holder, bob_holder]
        (Some [CHR 0xE9 # ''ric'']) False = CHR 0xC9 # ''ric''"
proof -
  have l: "\<forall>s. lower s = [] \<longleftrightarrow> s = []"
    by (simp add: lower_Nil_iff)
  have a: "\<forall>s. accent_lower s = [] \<longleftrightarrow> s = []"
    by (simp add: accent_lower_Nil_iff)
  have f1: "filter (holder_matches_with lower strip ['' ALICE ''] False) [alice_holder, bob_holder]
      = [alice_holder]"
    by (simp add: holder_matches_with_def selected_field_def holder_defs string_defs)
  have f2: "filter (holder_matches_with lower strip [''U2'', ''u1''] True) [alice_holder, bob_holder]
      = [alice_holder, bob_holder]"
    by (simp add: holder_matches_with_def selected_field_def holder_defs string_defs)
  have f3: "filter (holder_matches_with accent_lower strip [CHR 0xE9 # ''ric''] False)
        [eric_holder, bob_holder] = [eric_holder]"
    by (simp add: holder_matches_with_def selected_field_def holder_defs eric_holder_def
        accent_lower_def string_defs)
  from matcher_normalisation [OF l, of "[alice_holder, bob_holder]" strip "['' ALICE '']" False]
  have r1: "match_holders_to_user_filter_with lower strip [alice_holder, bob_holder]
        (Some ['' ALICE '']) False = ''Alice''"
    unfolding f1 by (simp add: matched_display_def holder_defs or_str_def)
  from matcher_normalisation [OF l, of "[alice_holder, bob_holder]" strip "[''U2'', ''u1'']" True]
  have r2: "match_holders_to_user_filter_with lower strip [alice_holder, bob_holder]
        (Some [''U2'', ''u1'']) True = ''Alice, Bob''"
    unfolding f2 by (simp add: matched_display_def holder_defs or_str_def)
  from matcher_normalisation [OF a, of "[eric_holder, bob_holder]" strip "[CHR 0xE9 # ''ric'']" False]
  have r3: "match_holders_to_user_filter_with accent_lower strip [eric_holder, bob_holder]
        (Some [CHR 0xE9 # ''ric'']) False = CHR 0xC9 # ''ric''"
    unfolding f3 by (simp add: matched_display_def holder_defs eric_holder_def or_str_def)
  from l a f1 r1 r2 r3 show ?thesis by (intro conjI)
qed

text \<open>
  The claim as it is written trims the holder's field too. A holder named " Alice"
  matches the filter entry "alice" by that rule, and the program does not match it.
\<close>

theorem matcher_untrimmed_holder_counterexample:
  "spec_matches [''alice''] False padded_alice_holder
   \<and> lower (strip '' Alice'') = lower (strip ''alice'')
   \<and> match_holders_to_user_filter_with lower strip [padded_alice_holder] (Some [''alice'']) False
       = []
   \<and> match_holders_to_user_filter [padded_alice_holder] (Some [''alice'']) False = []"
  by (simp add: spec_matches_def selected_field_def match_holders_to_user_filter_def
      match_holders_to_user_filter_with_def holder_defs string_defs)

lemma holder_matches_nameless:
  "\<not> truthy (h_name h) \<Longrightarrow> \<not> holder_matches us False h"
  by (cases "h_name h") (simp_all add: holder_matches_def selected_field_def)

text \<open>
  Claim C10. In display-name mode a holder whose display name is absent or empty is
  never included, whatever its id and whatever the filter: the result is the same with
  the holder and without it.
\<close>

theorem nameless_holder_never_matched:
  assumes "\<not> truthy (h_name h)"
  shows "match_holders_to_user_filter (hs @ h # hs') users False
       = match_holders_to_user_filter (hs @ hs') users False"
proof (cases users)
  case None
  then show ?thesis by (simp add: match_holders_to_user_filter_def)
next
  case (Some us)
  from assms have "filter (holder_matches us False) (hs @ h # hs')
      = filter (holder_matches us False) (hs @ hs')"
    by (simp add: holder_matches_nameless)
  then show ?thesis using Some
    by (simp only: match_holders_to_user_filter_def match_out_filter option.case)
qed

theorem nameless_holder_never_matched_witness:
  "\<not> truthy (h_name nameless_holder)
   \<and> h_id nameless_holder = Some ''bob''
   \<and> match_holders_to_user_filter [alice_holder, nameless_holder] (Some [''alice'', ''bob'']) False
       = ''Alice''
   \<and> match_holders_to_user_filter [nameless_holder] (Some [''alice'', ''bob'']) False = []"
proof -
  have n: "\<not> truthy (h_name nameless_holder)"
    by (simp add: holder_defs)
  from nameless_holder_never_matched [OF n, of "[alice_holder]" "[]" "Some [''alice'', ''bob'']"]
  have a: "match_holders_to_user_filter [alice_holder, nameless_holder] (Some [''alice'', ''bob'']) False
       = ''Alice''"
    by (simp add: match_holders_to_user_filter_def holder_defs string_defs)
  from nameless_holder_never_matched [OF n, of "[]" "[]" "Some [''alice'', ''bob'']"]
  have b: "match_holders_to_user_filter [nameless_holder] (Some [''alice'', ''bob'']) False = []"
    by (simp add: match_holders_to_user_filter_def)
  from n a b show ?thesis by (simp add: holder_defs)
qed

section \<open>Properties of the run\<close>


lemma changelog_pages_raise:
  "status_code (get s) = 200 \<Longrightarrow>
   collect_histories (histories_of (resp_json (get s))) = Inl e \<Longrightarrow>
   changelog_pages get key s changes = Some (Inl e)"
  by (subst changelog_pages.simps) (simp add: Let_def)

lemma changelog_pages_next:
  "status_code (get s) = 200 \<Longrightarrow>
   collect_histories (histories_of (resp_json (get s))) = Inr new \<Longrightarrow>
   more_pages (resp_json (get s)) s \<Longrightarrow>
   changelog_pages get key s changes = changelog_pages get key (s + 100) (changes @ new)"
  by (subst changelog_pages.simps) (simp add: Let_def more_pages_def split: option.splits)

lemma changelog_pages_last:
  "status_code (get s) = 200 \<Longrightarrow>
   collect_histories (histories_of (resp_json (get s))) = Inr new \<Longrightarrow>
   \<not> more_pages (resp_json (get s)) s \<Longrightarrow>
   changelog_pages get key s changes = Some (Inr (changes @ new, []))"
  by (subst changelog_pages.simps) (simp add: Let_def more_pages_def split: option.splits)

lemma reaches_loop:
  "reaches get s changes \<Longrightarrow>
   changelog_pages get key 0 [] = changelog_pages get key s changes"
  by (induction rule: reaches.induct) (simp_all add: changelog_pages_next)


lemma collect_histories_skip:
  "\<not> truthy (hist_created h) \<Longrightarrow> collect_histories (h # hs) = collect_histories hs"
  by simp

lemma collect_histories_raise:
  "h \<in> set hs \<Longrightarrow> truthy (hist_created h) \<Longrightarrow> parse_api_dt (the (hist_created h)) = Inl e \<Longrightarrow>
   \<exists>e'. collect_histories hs = Inl e'"
proof (induction hs)
  case Nil
  then show ?case by simp
next
  case (Cons x xs)
  show ?case
  proof (cases "x = h")
    case True
    with Cons.prems show ?thesis by simp
  next
    case False
    with Cons obtain e' where "collect_histories xs = Inl e'" by auto
    then show ?thesis by (simp split: sum.splits)
  qed
qed

lemma compute_ok:
  assumes "\<forall>c \<in> set changes. DT_MIN < created_dt c"
  shows "\<exists>info. compute_assignee_window_info f changes ws we = Inr info"
proof (cases "changes = []")
  case True
  then show ?thesis
    by (simp add: compute_assignee_window_info_def build_intervals_def Let_def)
next
  case False
  from build_intervals_ok [OF False assms, of f] show ?thesis
    by (simp add: compute_assignee_window_info_def Let_def)
qed

lemma process_issue_ok:
  assumes "get_assignee_changes w (issue_key it) = Some (Inr (changes, log))"
    and "\<forall>c \<in> set changes. DT_MIN < created_dt c"
  shows "\<exists>r. process_issue w users ua ws we it = Some (Inr (r, log)) \<and> r_key r = issue_key it"
proof -
  from compute_ok [OF assms(2), of "issue_fields_of it" ws we] obtain info where
    "compute_assignee_window_info (issue_fields_of it) changes ws we = Inr info" ..
  with assms(1) show ?thesis
    by (simp add: process_issue_def Let_def)
qed

lemma process_issue_raise:
  "get_assignee_changes w (issue_key it) = Some (Inl e) \<Longrightarrow>
   process_issue w users ua ws we it = Some (Inl e)"
  by (simp add: process_issue_def Let_def)

lemma process_issues_ok:
  assumes "\<forall>it \<in> set its. \<exists>changes log.
             get_assignee_changes w (issue_key it) = Some (Inr (changes, log))
             \<and> (\<forall>c \<in> set changes. DT_MIN < created_dt c)"
  shows "\<exists>rows log. process_issues w users ua ws we (its @ rest) out
            = process_issues w users ua ws we rest (fst out @ rows, snd out @ log)
          \<and> map r_key rows = map issue_key its"
  using assms
proof (induction its arbitrary: out)
  case Nil
  have "process_issues w users ua ws we ([] @ rest) out
      = process_issues w users ua ws we rest (fst out @ [], snd out @ [])"
    by simp
  then show ?case by (intro exI [of _ "[]"]) simp
next
  case (Cons it its)
  from Cons.prems obtain changes log where
    g: "get_assignee_changes w (issue_key it) = Some (Inr (changes, log))"
    and p: "\<forall>c \<in> set changes. DT_MIN < created_dt c"
    by auto
  from process_issue_ok [OF g p, of users ua ws we] obtain r where
    r: "process_issue w users ua ws we it = Some (Inr (r, log))" and k: "r_key r = issue_key it"
    by blast
  from Cons.prems have "\<forall>it \<in> set its. \<exists>changes log.
             get_assignee_changes w (issue_key it) = Some (Inr (changes, log))
             \<and> (\<forall>c \<in> set changes. DT_MIN < created_dt c)"
    by simp
  from Cons.IH [OF this, of "(fst out @ [r], snd out @ log)"] obtain rows log' where
    ih: "process_issues w users ua ws we (its @ rest) (fst out @ [r], snd out @ log)
            = process_issues w users ua ws we rest
                (fst (fst out @ [r], snd out @ log) @ rows, snd (fst out @ [r], snd out @ log) @ log')"
    and m: "map r_key rows = map issue_key its"
    by blast
  have "process_issues w users ua ws we ((it # its) @ rest) out
      = process_issues w users ua ws we rest (fst out @ (r # rows), snd out @ (log @ log'))"
    using r ih by simp
  moreover have "map r_key (r # rows) = map issue_key (it # its)"
    using k m by simp
  ultimately show ?case by blast
qed

lemmas world_defs = tracker_env_def carol_issue_def open_issue_def one_search_page_def
  assignee_item_def changelog_page_def server_error_def quiet_world_def malformed_world_def
  second_page_fails_world_def scenario_args_def inverted_args_def

lemma main_search:
  assumes "csv_list (arg_projects a) \<noteq> []" and "csv_list (arg_in_progress_statuses a) \<noteq> []"
    and "jira_session w = Inr base"
    and "parse_date_ymd_utc (arg_date_from a) False = Inr ws"
    and "parse_date_ymd_utc (arg_date_to a) True = Inr we"
  shows "main a w =
     search_loop w (if arg_users a \<noteq> [] then Some (csv_list (arg_users a)) else None)
       (arg_use_accountid a) ws we None ([], [])"
  using assms by (simp add: main_def Let_def)

lemma search_loop_last_page:
  assumes "status_code (search_post w tok) = 200"
    and "process_issues w users ua ws we (sd_issues (resp_json (search_post w tok))) out = Some (Inr out')"
    and "sd_isLast (resp_json (search_post w tok))"
  shows "search_loop w users ua ws we tok out = Some (Inr out')"
  using assms by (subst search_loop.simps) (simp add: Let_def)

lemma search_loop_raise:
  assumes "status_code (search_post w tok) = 200"
    and "process_issues w users ua ws we (sd_issues (resp_json (search_post w tok))) out = Some (Inl e)"
  shows "search_loop w users ua ws we tok out = Some (Inl e)"
  using assms by (subst search_loop.simps) (simp add: Let_def)

lemma search_loop_next:
  assumes "status_code (search_post w tok) = 200"
    and "process_issues w users ua ws we (sd_issues (resp_json (search_post w tok))) out = Some (Inr out')"
    and "\<not> sd_isLast (resp_json (search_post w tok))"
    and "truthy (sd_nextPageToken (resp_json (search_post w tok)))"
  shows "search_loop w users ua ws we tok out
       = search_loop w users ua ws we (sd_nextPageToken (resp_json (search_post w tok))) out'"
  using assms by (subst search_loop.simps) (simp add: Let_def)

lemma search_reaches_loop:
  "search_reaches w users ua ws we tok out \<Longrightarrow>
   search_loop w users ua ws we None ([], []) = search_loop w users ua ws we tok out"
  by (induction rule: search_reaches.induct) (simp_all add: search_loop_next)

lemma session_ok: "jira_session quiet_world = Inr ''https://example.atlassian.net''"
  "jira_session malformed_world = Inr ''https://example.atlassian.net''"
  "jira_session second_page_fails_world = Inr ''https://example.atlassian.net''"
  by (simp_all add: jira_session_def env_def world_defs)

lemma args_lists:
  "csv_list (arg_projects scenario_args) = [''TBR'']"
  "csv_list (arg_in_progress_statuses scenario_args) = [''In Progress'']"
  "csv_list (arg_projects inverted_args) = [''TBR'']"
  "csv_list (arg_in_progress_statuses inverted_args) = [''In Progress'']"
  by (simp_all add: csv_list_def strip_def is_space_def world_defs)

lemma inverted_window:
  "parse_date_ymd_utc (arg_date_from inverted_args) False = Inr 63887097600000000"
  "parse_date_ymd_utc (arg_date_to inverted_args) True = Inr 63887011199999000"
  by (simp_all add: world_defs parse_defs upt_rec)

lemma scenario_args_window:
  "parse_date_ymd_utc (arg_date_from scenario_args) False = Inr 63886924800000000"
  "parse_date_ymd_utc (arg_date_to scenario_args) True = Inr 63887183999999000"
  by (simp_all add: world_defs scenario_window)

lemma quiet_changes: "get_assignee_changes quiet_world key = Some (Inr ([], []))"
proof -
  have "changelog_pages (changelog_get quiet_world key) key 0 [] = Some (Inr ([] @ [], []))"
    by (rule changelog_pages_last)
      (simp_all add: world_defs histories_of_def more_pages_def)
  then show ?thesis by (simp add: get_assignee_changes_def)
qed

lemma carol_all_time:
  "compute_assignee_window_info held_by_carol [] ws we =
     (if ws \<le> DT_MAX then
        Inr \<lparr>assignees_during_window_display = ''Carol'',
             assignees_during_window_accountIds = ''u3'',
             first_assignee_in_window = Some ''Carol'',
             last_assignee_in_window = Some ''Carol'',
             holders = [\<lparr>h_id = Some ''u3'', h_name = Some ''Carol'',
                         overlap_start = ws, overlap_end = min DT_MAX we\<rparr>]\<rparr>
      else
        Inr \<lparr>assignees_during_window_display = [],
             assignees_during_window_accountIds = [],
             first_assignee_in_window = Some [],
             last_assignee_in_window = Some [],
             holders = []\<rparr>)"
  by (simp add: compute_assignee_window_info_def build_intervals_def Let_def overlaps_def
      example_defs DT_MIN_def holders_sorted_eval)

text \<open>
  Claim C4, as amended. The program does not compare the two dates. For every pair of
  calendar dates that parse and whose window end precedes the window start, the run is
  not rejected: it goes on to the search and to the entities, and where the search is
  answered in one page and every history is fetched (with no event at
  \<^verbatim>\<open>datetime.min\<close>) it produces one row for every entity of the search, in order.
\<close>

theorem window_order_not_checked:
  assumes "csv_list (arg_projects a) \<noteq> []" and "csv_list (arg_in_progress_statuses a) \<noteq> []"
    and "jira_session w = Inr base"
    and "parse_date_ymd_utc (arg_date_from a) False = Inr window_start"
    and "parse_date_ymd_utc (arg_date_to a) True = Inr window_end"
    and "window_end < window_start"
    and "status_code (search_post w None) = 200"
    and "sd_isLast (resp_json (search_post w None))"
    and "\<forall>it \<in> set (sd_issues (resp_json (search_post w None))). \<exists>changes log.
           get_assignee_changes w (issue_key it) = Some (Inr (changes, log))
           \<and> (\<forall>c \<in> set changes. DT_MIN < created_dt c)"
  shows "\<exists>rows log. main a w = Some (Inr (rows, log))
           \<and> map r_key rows = map issue_key (sd_issues (resp_json (search_post w None)))"
proof -
  let ?users = "if arg_users a \<noteq> [] then Some (csv_list (arg_users a)) else None"
  let ?its = "sd_issues (resp_json (search_post w None))"
  from process_issues_ok [OF assms(9), of ?users "arg_use_accountid a" window_start window_end
      "[]" "([], [])"]
  obtain rows log where
    p: "process_issues w ?users (arg_use_accountid a) window_start window_end ?its ([], [])
          = Some (Inr (rows, log))"
    and k: "map r_key rows = map issue_key ?its"
    by auto
  have "main a w = search_loop w ?users (arg_use_accountid a) window_start window_end None ([], [])"
    using assms(1-5) by (rule main_search)
  also have "\<dots> = Some (Inr (rows, log))"
    using assms(7) p assms(8) by (rule search_loop_last_page)
  finally show ?thesis using k by blast
qed

theorem window_order_not_checked_witness:
  "csv_list (arg_projects inverted_args) \<noteq> []
   \<and> csv_list (arg_in_progress_statuses inverted_args) \<noteq> []
   \<and> jira_session quiet_world = Inr ''https://example.atlassian.net''
   \<and> parse_date_ymd_utc (arg_date_from inverted_args) False = Inr 63887097600000000
   \<and> parse_date_ymd_utc (arg_date_to inverted_args) True = Inr 63887011199999000
   \<and> (63887011199999000 :: nat) < 63887097600000000
   \<and> (\<exists>rows log. main inverted_args quiet_world = Some (Inr (rows, log))
         \<and> map r_key rows = [''TBR-1''])"
proof -
  have h1: "csv_list (arg_projects inverted_args) \<noteq> []"
    and h2: "csv_list (arg_in_progress_statuses inverted_args) \<noteq> []"
    by (simp_all add: args_lists)
  have h6: "(63887011199999000 :: nat) < 63887097600000000" by simp
  have h7: "status_code (search_post quiet_world None) = 200"
    and h8: "sd_isLast (resp_json (search_post quiet_world None))"
    and its: "sd_issues (resp_json (search_post quiet_world None)) = [carol_issue]"
    by (simp_all add: world_defs)
  have h9: "\<forall>it \<in> set (sd_issues (resp_json (search_post quiet_world None))). \<exists>changes log.
           get_assignee_changes quiet_world (issue_key it) = Some (Inr (changes, log))
           \<and> (\<forall>c \<in> set changes. DT_MIN < created_dt c)"
    by (simp add: quiet_changes)
  from window_order_not_checked [OF h1 h2 session_ok(1) inverted_window h6 h7 h8 h9]
  obtain rows log where "main inverted_args quiet_world = Some (Inr (rows, log))"
    and "map r_key rows = map issue_key (sd_issues (resp_json (search_post quiet_world None)))"
    by blast
  then have "\<exists>rows log. main inverted_args quiet_world = Some (Inr (rows, log))
         \<and> map r_key rows = [''TBR-1'']"
    unfolding its by (auto simp: carol_issue_def)
  with h1 h2 session_ok(1) inverted_window h6 show ?thesis by simp
qed

text \<open>
  The claim as it is written has the run rejected before any entity is processed. With
  the window 2025-07-03 to 2025-07-01 the run of the example reads the history of the
  issue and produces its row, with Carol as the holder in the window.
\<close>

theorem inverted_window_counterexample:
  "parse_date_ymd_utc (arg_date_from inverted_args) False = Inr 63887097600000000
   \<and> parse_date_ymd_utc (arg_date_to inverted_args) True = Inr 63887011199999000
   \<and> (63887011199999000 :: nat) < 63887097600000000
   \<and> (\<exists>r. main inverted_args quiet_world = Some (Inr ([r], []))
         \<and> r_key r = ''TBR-1''
         \<and> r_assignees_during_window_display r = ''Carol''
         \<and> r_first_assignee_in_window r = Some ''Carol'')"
proof -
  have p: "\<exists>r. process_issue quiet_world None False 63887097600000000 63887011199999000 carol_issue
        = Some (Inr (r, []))
      \<and> r_key r = ''TBR-1''
      \<and> r_assignees_during_window_display r = ''Carol''
      \<and> r_first_assignee_in_window r = Some ''Carol''"
    by (simp add: process_issue_def Let_def quiet_changes carol_issue_def carol_all_time DT_MAX_def)
  then obtain r where
    r: "process_issue quiet_world None False 63887097600000000 63887011199999000 carol_issue
        = Some (Inr (r, []))"
    and k: "r_key r = ''TBR-1''" "r_assignees_during_window_display r = ''Carol''"
      "r_first_assignee_in_window r = Some ''Carol''"
    by (elim exE conjE)
  have its: "sd_issues (resp_json (search_post quiet_world None)) = [carol_issue]"
    by (simp add: world_defs)
  have "process_issues quiet_world None False 63887097600000000 63887011199999000
          (sd_issues (resp_json (search_post quiet_world None))) ([], []) = Some (Inr ([r], []))"
    unfolding its using r by simp
  then have "search_loop quiet_world None False 63887097600000000 63887011199999000 None ([], [])
      = Some (Inr ([r], []))"
    by (intro search_loop_last_page) (simp_all add: world_defs)
  moreover have "main inverted_args quiet_world
      = search_loop quiet_world
          (if arg_users inverted_args \<noteq> [] then Some (csv_list (arg_users inverted_args)) else None)
          (arg_use_accountid inverted_args) 63887097600000000 63887011199999000 None ([], [])"
    by (rule main_search [OF _ _ session_ok(1) inverted_window]) (simp_all add: args_lists)
  moreover have "arg_users inverted_args = []" "arg_use_accountid inverted_args = False"
    by (simp_all add: world_defs)
  ultimately have "main inverted_args quiet_world = Some (Inr ([r], []))"
    by simp
  with k have "\<exists>r. main inverted_args quiet_world = Some (Inr ([r], []))
         \<and> r_key r = ''TBR-1''
         \<and> r_assignees_during_window_display r = ''Carol''
         \<and> r_first_assignee_in_window r = Some ''Carol''"
    by (intro exI [of _ r] conjI)
  with inverted_window show ?thesis by simp
qed

lemma get_assignee_changes_raise:
  assumes "reaches (changelog_get w key) s changes"
    and "status_code (changelog_get w key s) = 200"
    and "h \<in> set (histories_of (resp_json (changelog_get w key s)))"
    and "truthy (hist_created h)"
    and "parse_api_dt (the (hist_created h)) = Inl e"
  shows "\<exists>e'. get_assignee_changes w key = Some (Inl e')"
proof -
  from collect_histories_raise [OF assms(3-5)] obtain e' where
    c: "collect_histories (histories_of (resp_json (changelog_get w key s))) = Inl e'" ..
  have "changelog_pages (changelog_get w key) key 0 []
      = changelog_pages (changelog_get w key) key s changes"
    using assms(1) by (rule reaches_loop)
  also have "\<dots> = Some (Inl e')"
    using assms(2) c by (rule changelog_pages_raise)
  finally show ?thesis by (simp add: get_assignee_changes_def)
qed

text \<open>
  Claim C5, as amended. A history record whose timestamp is missing or empty is skipped
  and the rest of the history is read. A record whose timestamp is present and is not
  parseable is not skipped: on whatever page of the history the loop reads it, the
  exception of \<^verbatim>\<open>parse_api_dt\<close> leaves \<^verbatim>\<open>get_assignee_changes\<close> with no events
  returned, and the run ends with that exception and no rows, on whatever page of the
  search the issue is (the issues before it on that page processed).
\<close>

theorem malformed_timestamp_ends_run:
  assumes "csv_list (arg_projects a) \<noteq> []" and "csv_list (arg_in_progress_statuses a) \<noteq> []"
    and "jira_session w = Inr base"
    and "parse_date_ymd_utc (arg_date_from a) False = Inr window_start"
    and "parse_date_ymd_utc (arg_date_to a) True = Inr window_end"
    and "search_reaches w (if arg_users a \<noteq> [] then Some (csv_list (arg_users a)) else None)
           (arg_use_accountid a) window_start window_end token out"
    and "status_code (search_post w token) = 200"
    and "sd_issues (resp_json (search_post w token)) = before @ it # after"
    and "\<forall>p \<in> set before. \<exists>changes log.
           get_assignee_changes w (issue_key p) = Some (Inr (changes, log))
           \<and> (\<forall>c \<in> set changes. DT_MIN < created_dt c)"
    and "reaches (changelog_get w (issue_key it)) start_at changes"
    and "status_code (changelog_get w (issue_key it) start_at) = 200"
    and "h \<in> set (histories_of (resp_json (changelog_get w (issue_key it) start_at)))"
    and "truthy (hist_created h)"
    and "parse_api_dt (the (hist_created h)) = Inl e"
  shows "(\<exists>e'. get_assignee_changes w (issue_key it) = Some (Inl e')
               \<and> main a w = Some (Inl e'))
    \<and> (\<forall>h' hs. \<not> truthy (hist_created h') \<longrightarrow>
          collect_histories (h' # hs) = collect_histories hs)"
proof -
  let ?users = "if arg_users a \<noteq> [] then Some (csv_list (arg_users a)) else None"
  let ?ua = "arg_use_accountid a"
  from get_assignee_changes_raise [OF assms(10-14)] obtain e' where
    g: "get_assignee_changes w (issue_key it) = Some (Inl e')" ..
  then have pi: "process_issue w ?users ?ua window_start window_end it = Some (Inl e')"
    by (rule process_issue_raise)
  from process_issues_ok [OF assms(9), of ?users ?ua window_start window_end "it # after" out]
  obtain rows log where
    "process_issues w ?users ?ua window_start window_end (before @ it # after) out
       = process_issues w ?users ?ua window_start window_end (it # after)
           (fst out @ rows, snd out @ log)"
    by auto
  also have "\<dots> = Some (Inl e')"
    using pi by simp
  finally have "process_issues w ?users ?ua window_start window_end
      (sd_issues (resp_json (search_post w token))) out = Some (Inl e')"
    by (simp only: assms(8))
  with assms(7) have "search_loop w ?users ?ua window_start window_end token out = Some (Inl e')"
    by (rule search_loop_raise)
  moreover have "search_loop w ?users ?ua window_start window_end None ([], [])
      = search_loop w ?users ?ua window_start window_end token out"
    using assms(6) by (rule search_reaches_loop)
  moreover have "main a w = search_loop w ?users ?ua window_start window_end None ([], [])"
    using assms(1-5) by (rule main_search)
  ultimately have "main a w = Some (Inl e')" by simp
  with g show ?thesis by auto
qed

lemma malformed_text:
  "parse_api_dt ''2025-07-02 10:00'' = Inl ValueError"
  by (simp add: parse_defs)

theorem malformed_timestamp_ends_run_witness:
  "parse_api_dt ''2025-07-02 10:00'' = Inl ValueError
   \<and> sd_issues (resp_json (search_post malformed_world None)) = [carol_issue, open_issue]
   \<and> (\<exists>e'. main scenario_args malformed_world = Some (Inl e'))"
proof -
  let ?h = "\<lparr>hist_created = Some ''2025-07-02 10:00'', hist_items = [assignee_item]\<rparr>"
  have h1: "csv_list (arg_projects scenario_args) \<noteq> []"
    and h2: "csv_list (arg_in_progress_statuses scenario_args) \<noteq> []"
    by (simp_all add: args_lists)
  have h6: "search_reaches malformed_world
      (if arg_users scenario_args \<noteq> [] then Some (csv_list (arg_users scenario_args)) else None)
      (arg_use_accountid scenario_args) 63886924800000000 63887183999999000 None ([], [])"
    by (rule search_reaches.first_search)
  have h7: "status_code (search_post malformed_world None) = 200"
    by (simp add: world_defs)
  have h8: "sd_issues (resp_json (search_post malformed_world None)) = [] @ carol_issue # [open_issue]"
    by (simp add: world_defs)
  have h9: "\<forall>p \<in> set []. \<exists>changes log.
           get_assignee_changes malformed_world (issue_key p) = Some (Inr (changes, log))
           \<and> (\<forall>c \<in> set changes. DT_MIN < created_dt c)"
    by simp
  have h10: "reaches (changelog_get malformed_world (issue_key carol_issue)) 0 []"
    by (rule reaches.first_page)
  have h11: "status_code (changelog_get malformed_world (issue_key carol_issue) 0) = 200"
    by (simp add: world_defs)
  have h12: "?h \<in> set (histories_of (resp_json (changelog_get malformed_world (issue_key carol_issue) 0)))"
    by (simp add: world_defs histories_of_def)
  have h13: "truthy (hist_created ?h)" by simp
  have h14: "parse_api_dt (the (hist_created ?h)) = Inl ValueError"
    by (simp add: malformed_text)
  from malformed_timestamp_ends_run
    [OF h1 h2 session_ok(2) scenario_args_window h6 h7 h8 h9 h10 h11 h12 h13 h14]
  have "\<exists>e'. main scenario_args malformed_world = Some (Inl e')"
    by blast
  with malformed_text h8 show ?thesis by simp
qed

text \<open>
  The claim as it is written has the run continue. In the example the first of two
  issues has one record with the timestamp "2025-07-02 10:00": the run ends with
  \<^verbatim>\<open>ValueError\<close>, and the second issue gets no row.
\<close>

theorem malformed_timestamp_counterexample:
  "truthy (Some ''2025-07-02 10:00'')
   \<and> parse_api_dt ''2025-07-02 10:00'' = Inl ValueError
   \<and> sd_issues (resp_json (search_post malformed_world None)) = [carol_issue, open_issue]
   \<and> histories_of (resp_json (changelog_get malformed_world (issue_key carol_issue) 0))
       = [\<lparr>hist_created = Some ''2025-07-02 10:00'', hist_items = [assignee_item]\<rparr>]
   \<and> get_assignee_changes malformed_world (issue_key carol_issue) = Some (Inl ValueError)
   \<and> main scenario_args malformed_world = Some (Inl ValueError)"
proof -
  have hs: "histories_of (resp_json (changelog_get malformed_world (issue_key carol_issue) 0))
       = [\<lparr>hist_created = Some ''2025-07-02 10:00'', hist_items = [assignee_item]\<rparr>]"
    by (simp add: world_defs histories_of_def)
  have "changelog_pages (changelog_get malformed_world (issue_key carol_issue))
      (issue_key carol_issue) 0 [] = Some (Inl ValueError)"
    by (rule changelog_pages_raise) (simp_all add: hs malformed_text, simp add: world_defs)
  then have g: "get_assignee_changes malformed_world (issue_key carol_issue) = Some (Inl ValueError)"
    by (simp add: get_assignee_changes_def)
  then have "process_issue malformed_world None False 63886924800000000 63887183999999000 carol_issue
      = Some (Inl ValueError)"
    by (rule process_issue_raise)
  then have "process_issues malformed_world None False 63886924800000000 63887183999999000
      [carol_issue, open_issue] ([], []) = Some (Inl ValueError)"
    by simp
  moreover have its: "sd_issues (resp_json (search_post malformed_world None)) = [carol_issue, open_issue]"
    by (simp add: world_defs)
  ultimately have "search_loop malformed_world None False 63886924800000000 63887183999999000 None ([], [])
      = Some (Inl ValueError)"
    by (intro search_loop_raise) (simp_all add: world_defs)
  moreover have "main scenario_args malformed_world
      = search_loop malformed_world
          (if arg_users scenario_args \<noteq> [] then Some (csv_list (arg_users scenario_args)) else None)
          (arg_use_accountid scenario_args) 63886924800000000 63887183999999000 None ([], [])"
    by (rule main_search [OF _ _ session_ok(2) scenario_args_window]) (simp_all add: args_lists)
  moreover have "arg_users scenario_args = []" "arg_use_accountid scenario_args = False"
    by (simp_all add: world_defs)
  ultimately have "main scenario_args malformed_world = Some (Inl ValueError)"
    by simp
  with hs g its malformed_text show ?thesis by simp
qed










end
